theory Spec2Isabelle
  imports Main "HOL-Library.AList" "HOL-Library.Sublist"
begin

section \<open>The games table and the extractor's state\<close>

text \<open>
  One row of the table \<open>games\<close> created by \<open>setup_database\<close>
  (\<open>app_id TEXT PRIMARY KEY, title TEXT NOT NULL, first_seen INTEGER, last_seen INTEGER,
  report_count INTEGER DEFAULT 1\<close>). The key \<open>app_id\<close> is the key of the association
  list below; a nullable column is an \<open>option\<close>, \<open>None\<close> being SQL NULL and Python
  \<open>None\<close>. Every statement of the repository that writes \<open>report_count\<close> writes an
  integer, so that column is an \<open>int\<close>.
\<close>

record game =
  title :: string
  first_seen :: "int option"
  last_seen :: "int option"
  report_count :: int

type_synonym games_table = "(string \<times> game) list"

text \<open>
  The counters of \<open>self.stats\<close> that the ingestion updates. Database sizes and
  processing times are floating-point readings of the file system and the clock and are
  left out.
\<close>

record stats =
  total_archives :: nat
  total_json_files :: nat
  total_entries_processed :: nat
  total_games_added :: nat
  total_games_updated :: nat
  processed_archives :: nat
  processed_json_files :: nat

record extractor =
  games :: games_table
  processed_games :: "string set"
  stats :: stats

text \<open>
  A parsed payload entry, reduced to the three values \<open>process_json_entry\<close> reads from
  it, typed as the schema types them:
  \<^item> \<open>appId\<close>: \<open>entry_data.get("app", {}).get("steam", {}).get("appId")\<close>, a string;
    \<open>None\<close> when the value is absent or null;
  \<^item> \<open>app_title\<close>: \<open>entry_data.get("app", {}).get("title")\<close>, likewise;
  \<^item> \<open>timestamp_key\<close>: the entry's own \<open>"timestamp"\<close> key: \<open>None\<close> when the key is
    absent, \<open>Some None\<close> when it is present with the value null, \<open>Some (Some t)\<close> when it
    holds the integer \<open>t\<close>.
  An entry that is no JSON object, or whose \<open>app\<close> or \<open>steam\<close> value is no object, raises
  \<open>AttributeError\<close> inside the function's \<open>try\<close>, which returns \<open>(False, False)\<close> and leaves
  the table alone, exactly as a missing \<open>appId\<close> does; such an entry is represented by
  \<open>appId = None\<close>.
\<close>

datatype entry_data =
  Entry (appId: "string option") (app_title: "string option") (timestamp_key: "int option option")

datatype py_exception = TypeError | ValueError | OverflowError | Sqlite3Error

text \<open>
  \<open>entry_timestamp and entry_timestamp < first_seen\<close> (line 164). Python evaluates the
  comparison only when \<open>entry_timestamp\<close> is truthy (neither \<open>None\<close> nor \<open>0\<close>); comparing an
  integer with \<open>None\<close> raises \<open>TypeError\<close>.
\<close>

definition older_than :: "int option \<Rightarrow> int option \<Rightarrow> py_exception + bool" where
  "older_than entry_timestamp fs =
     (case entry_timestamp of
        None \<Rightarrow> Inr False
      | Some t \<Rightarrow>
          if t = 0 then Inr False
          else (case fs of None \<Rightarrow> Inl TypeError | Some f \<Rightarrow> Inr (t < f)))"

text \<open>\<open>entry_timestamp and entry_timestamp > last_seen\<close> (line 169).\<close>

definition newer_than :: "int option \<Rightarrow> int option \<Rightarrow> py_exception + bool" where
  "newer_than entry_timestamp ls =
     (case entry_timestamp of
        None \<Rightarrow> Inr False
      | Some t \<Rightarrow>
          if t = 0 then Inr False
          else (case ls of None \<Rightarrow> Inl TypeError | Some l \<Rightarrow> Inr (t > l)))"

text \<open>
  Binding a parameter of an SQL statement: Python's \<open>sqlite3\<close> stores an integer in a
  signed 64-bit \<open>INTEGER\<close> and raises \<open>OverflowError\<close> for an integer outside that range;
  \<open>None\<close> is bound as NULL.
\<close>

definition sqlite_int :: "int \<Rightarrow> bool" where
  "sqlite_int v = (- 9223372036854775808 \<le> v \<and> v \<le> 9223372036854775807)"

definition bindable :: "int option \<Rightarrow> bool" where
  "bindable v = (case v of None \<Rightarrow> True | Some i \<Rightarrow> sqlite_int i)"

text \<open>
  \<open>ProtonDBExtractor.process_json_entry\<close> (lines 135-192). The result is the extractor
  after the call and the pair \<open>(is_new, is_updated)\<close>. An exception raised in the body (the
  \<open>TypeError\<close> of a comparison with \<open>None\<close>, the \<open>OverflowError\<close> of a timestamp that cannot
  be bound to the \<open>UPDATE\<close> or the \<open>INSERT\<close>) is caught by the function's
  \<open>except Exception\<close>, which returns \<open>(False, False)\<close>; the statement has not run at that
  point, so the table is as it was.
\<close>

definition process_json_entry ::
    "extractor \<Rightarrow> entry_data \<Rightarrow> int option \<Rightarrow> extractor \<times> bool \<times> bool" where
  "process_json_entry self entry timestamp =
     (case (appId entry, app_title entry) of
        (Some app_id, Some ttl) \<Rightarrow>
          if app_id = [] \<or> ttl = [] then (self, False, False)
          else
            let entry_timestamp =
                  (case timestamp_key entry of None \<Rightarrow> timestamp | Some v \<Rightarrow> v)
            in
              (case map_of (games self) app_id of
                 Some row \<Rightarrow>
                   (case older_than entry_timestamp (first_seen row) of
                      Inl e \<Rightarrow> (self, False, False)
                    | Inr older \<Rightarrow>
                        (case newer_than entry_timestamp (last_seen row) of
                           Inl e \<Rightarrow> (self, False, False)
                         | Inr newer \<Rightarrow>
                             let fs = (if older then entry_timestamp else first_seen row);
                                 ls = (if newer then entry_timestamp else last_seen row)
                             in
                               if \<not> (bindable fs \<and> bindable ls) then (self, False, False)
                               else
                                 (self\<lparr>games :=
                                     AList.update app_id
                                       (row\<lparr>first_seen := fs, last_seen := ls,
                                            report_count := report_count row + 1\<rparr>)
                                       (games self),
                                   processed_games := insert app_id (processed_games self)\<rparr>,
                                  False, True)))
               | None \<Rightarrow>
                   if \<not> bindable entry_timestamp then (self, False, False)
                   else
                     (self\<lparr>games :=
                         games self @
                           [(app_id, \<lparr>title = ttl, first_seen = entry_timestamp,
                                      last_seen = entry_timestamp, report_count = 1\<rparr>)],
                       processed_games := insert app_id (processed_games self)\<rparr>,
                      True, False))
      | _ \<Rightarrow> (self, False, False))"

text \<open>
  A sequence of observations, each with the fallback timestamp of the file it came from,
  applied one after the other: what the loops of \<open>process_archive\<close> and
  \<open>process_json_file\<close> do to the table over a whole run.
\<close>

definition reconcile_all :: "extractor \<Rightarrow> (entry_data \<times> int option) list \<Rightarrow> extractor" where
  "reconcile_all self obs = fold (\<lambda>(entry, timestamp) s. fst (process_json_entry s entry timestamp)) obs self"

text \<open>
  The invariant of the data model: \<open>first_seen \<le> last_seen\<close> when both are non-null, and
  \<open>report_count \<ge> 1\<close>.
\<close>

definition row_inv :: "game \<Rightarrow> bool" where
  "row_inv row =
     ((case (first_seen row, last_seen row) of (Some f, Some l) \<Rightarrow> f \<le> l | _ \<Rightarrow> True)
      \<and> 1 \<le> report_count row)"

definition store_inv :: "extractor \<Rightarrow> bool" where
  "store_inv self = list_all (\<lambda>(app_id, row). row_inv row) (games self)"

text \<open>\<open>ProtonDBExtractor.__init__\<close> (lines 28-48), over the table found in the database file.\<close>

definition empty_stats :: stats where
  "empty_stats = \<lparr>total_archives = 0, total_json_files = 0, total_entries_processed = 0,
     total_games_added = 0, total_games_updated = 0, processed_archives = 0,
     processed_json_files = 0\<rparr>"

definition new_extractor :: "games_table \<Rightarrow> extractor" where
  "new_extractor db = \<lparr>games = db, processed_games = {}, stats = empty_stats\<rparr>"


section \<open>Timestamp inference from a file name\<close>

text \<open>
  File names are strings of ASCII characters. \<open>is_lower\<close> is the regular expression's
  class \<open>[a-z]\<close>, \<open>is_digit\<close> its class \<open>\d\<close> on ASCII.
\<close>

definition is_lower :: "char \<Rightarrow> bool" where
  "is_lower c = (97 \<le> (of_char c :: nat) \<and> (of_char c :: nat) \<le> 122)"

definition is_digit :: "char \<Rightarrow> bool" where
  "is_digit c = (48 \<le> (of_char c :: nat) \<and> (of_char c :: nat) \<le> 57)"

text \<open>
  \<open>re.match(r'reports_([a-z]+)(\d*)_(\d{4})\.tar\.gz', filename)\<close> (line 213) and the same
  with \<open>\.json\<close> (line 331); \<open>ext\<close> is the literal suffix. The result is the three groups.
  \<open>re.match\<close> anchors the pattern at the start of the name only, so anything may follow
  the suffix. The greedy runs need no backtracking: the character after \<open>[a-z]+\<close> must be a
  digit or \<open>_\<close>, and the one after \<open>\d*\<close> must be \<open>_\<close>, neither of which the run before it
  could have taken.
\<close>

definition re_match :: "string \<Rightarrow> string \<Rightarrow> (string \<times> string \<times> string) option" where
  "re_match ext filename =
     (if \<not> prefix ''reports_'' filename then None
      else
        let r1 = drop 8 filename;
            month_name = takeWhile is_lower r1;
            r2 = dropWhile is_lower r1;
            digits = takeWhile is_digit r2;
            r3 = dropWhile is_digit r2
        in
          if month_name = [] then None
          else
            (case r3 of
               [] \<Rightarrow> None
             | c # r4 \<Rightarrow>
                 if c \<noteq> CHR ''_'' then None
                 else
                   let year = take 4 r4 in
                     if length year = 4 \<and> list_all is_digit year \<and> prefix ext (drop 4 r4)
                     then Some (month_name, digits, year)
                     else None))"

definition month_map :: "(string \<times> nat) list" where
  "month_map =
     [(''jan'', 1), (''feb'', 2), (''mar'', 3), (''apr'', 4),
      (''may'', 5), (''jun'', 6), (''jul'', 7), (''aug'', 8),
      (''sep'', 9), (''oct'', 10), (''nov'', 11), (''dec'', 12)]"

text \<open>\<open>int(match.group(3))\<close> on a string of decimal digits.\<close>

definition py_int :: "string \<Rightarrow> int" where
  "py_int s = foldl (\<lambda>acc c. 10 * acc + (int (of_char c) - 48)) 0 s"

text \<open>\<open>sub in filename\<close>: \<open>sub\<close> occurs somewhere in \<open>filename\<close>.\<close>

fun contains :: "string \<Rightarrow> string \<Rightarrow> bool" where
  "contains sub [] = (sub = [])"
| "contains sub (c # cs) = (prefix sub (c # cs) \<or> contains sub cs)"

text \<open>
  The two calls into Python's standard library, which is no part of the repository,
  modelled from its documentation. \<open>datetime.datetime(year, month, day)\<close> raises
  \<open>ValueError\<close> unless \<open>1 \<le> year \<le> 9999\<close>, \<open>1 \<le> month \<le> 12\<close> and the day exists in that
  month. \<open>int(dt.timestamp())\<close> of such a naive \<open>datetime\<close> at midnight is the number of
  seconds from 1970-01-01 to that midnight (the proleptic Gregorian day number is the
  library's \<open>_ymd2ord\<close>, and day 719163 is 1970-01-01), less the offset of the machine's
  local time zone from UTC at that moment, which is the parameter \<open>utcoffset\<close>.
\<close>

definition is_leap :: "int \<Rightarrow> bool" where
  "is_leap year = (year mod 4 = 0 \<and> (year mod 100 \<noteq> 0 \<or> year mod 400 = 0))"

definition days_before_year :: "int \<Rightarrow> int" where
  "days_before_year year = (let y = year - 1 in y * 365 + y div 4 - y div 100 + y div 400)"

definition days_in_month :: "int \<Rightarrow> nat \<Rightarrow> nat" where
  "days_in_month year month =
     (if month = 2 \<and> is_leap year then 29
      else [31, 28, 31, 30, 31, 30, 31, 31, 30, 31, 30, 31] ! (month - 1))"

definition days_before_month :: "int \<Rightarrow> nat \<Rightarrow> int" where
  "days_before_month year month =
     [0, 31, 59, 90, 120, 151, 181, 212, 243, 273, 304, 334] ! (month - 1)
       + (if month > 2 \<and> is_leap year then 1 else 0)"

definition ymd2ord :: "int \<Rightarrow> nat \<Rightarrow> nat \<Rightarrow> int" where
  "ymd2ord year month day = days_before_year year + days_before_month year month + int day"

definition datetime :: "int \<Rightarrow> nat \<Rightarrow> nat \<Rightarrow> py_exception + (int \<times> nat \<times> nat)" where
  "datetime year month day =
     (if \<not> (1 \<le> year \<and> year \<le> 9999) then Inl ValueError
      else if \<not> (1 \<le> month \<and> month \<le> 12) then Inl ValueError
      else if \<not> (1 \<le> day \<and> day \<le> days_in_month year month) then Inl ValueError
      else Inr (year, month, day))"

definition dt_timestamp :: "(int \<Rightarrow> int) \<Rightarrow> int \<times> nat \<times> nat \<Rightarrow> int" where
  "dt_timestamp utcoffset dt =
     (case dt of (year, month, day) \<Rightarrow>
        let naive = (ymd2ord year month day - 719163) * 86400
        in naive - utcoffset naive)"

text \<open>
  The timestamp inference of \<open>process_archive\<close> (lines 206-244, \<open>ext = ''.tar.gz''\<close>) and of
  \<open>process_json_file\<close> (lines 324-361, \<open>ext = ''.json''\<close>); the two blocks differ in the
  suffix of the pattern only. \<open>now\<close> is \<open>int(time.time())\<close> at the moment of the call. An
  exception of the block is caught by its own \<open>except Exception\<close>, which leaves the timestamp
  \<open>None\<close>.
\<close>

definition extract_timestamp :: "string \<Rightarrow> (int \<Rightarrow> int) \<Rightarrow> int \<Rightarrow> string \<Rightarrow> int option" where
  "extract_timestamp ext utcoffset now filename =
     (case re_match ext filename of
        Some (month_name, digits, year_s) \<Rightarrow>
          (case map_of month_map month_name of
             Some month_num \<Rightarrow>
               (case datetime (py_int year_s) month_num 15 of
                  Inl e \<Rightarrow> None
                | Inr dt \<Rightarrow> Some (dt_timestamp utcoffset dt))
           | None \<Rightarrow> None)
      | None \<Rightarrow> if contains ''piiremoved'' filename then Some now else None)"

section \<open>The archive and file walker\<close>

text \<open>
  What \<open>json.load\<close> gives for one file: \<open>JSONDecodeError\<close> for malformed JSON, \<open>OtherError\<close>
  for any other exception of \<open>open\<close> or \<open>json.load\<close>, or the parsed document, which is a
  top-level list of entries or a single entry.
\<close>

datatype document = DataList "entry_data list" | DataSingle entry_data

datatype load_result = JSONDecodeError | OtherError | Loaded document

text \<open>
  An archive as \<open>process_archive\<close> sees it: \<open>TarError\<close> when \<open>tarfile.open\<close> or \<open>extractall\<close>
  raises, otherwise the \<open>*.json\<close> files found under the scratch directory, each with what
  loading it gives.
\<close>

datatype tar = TarError | Extracted "load_result list"

text \<open>
  The loop over the entries of one document (lines 263-277 and 367-389), on the counters
  \<open>(entries_processed, games_added, games_updated)\<close>. The commit after every 10,000
  entries changes nothing the model holds.
\<close>

fun process_entries ::
    "extractor \<Rightarrow> entry_data list \<Rightarrow> int option \<Rightarrow> nat \<times> nat \<times> nat
       \<Rightarrow> extractor \<times> nat \<times> nat \<times> nat" where
  "process_entries self [] timestamp counts = (self, counts)"
| "process_entries self (entry # data) timestamp (entries_processed, games_added, games_updated) =
     (case process_json_entry self entry timestamp of
        (self', is_new, is_updated) \<Rightarrow>
          process_entries self' data timestamp
            (entries_processed + 1,
             (if is_new then games_added + 1 else games_added),
             (if \<not> is_new \<and> is_updated then games_updated + 1 else games_updated)))"

definition process_data ::
    "extractor \<Rightarrow> document \<Rightarrow> int option \<Rightarrow> nat \<times> nat \<times> nat
       \<Rightarrow> extractor \<times> nat \<times> nat \<times> nat" where
  "process_data self data timestamp counts =
     (case data of
        DataList entries \<Rightarrow> process_entries self entries timestamp counts
      | DataSingle entry \<Rightarrow> process_entries self [entry] timestamp counts)"

text \<open>
  The loop over the JSON files of an extracted archive (lines 257-281): a file that does
  not load is logged and the loop goes on to the next file.
\<close>

fun process_members ::
    "extractor \<Rightarrow> load_result list \<Rightarrow> int option \<Rightarrow> nat \<times> nat \<times> nat
       \<Rightarrow> extractor \<times> nat \<times> nat \<times> nat" where
  "process_members self [] archive_timestamp counts = (self, counts)"
| "process_members self (json_file # json_files) archive_timestamp counts =
     (case json_file of
        Loaded data \<Rightarrow>
          (case process_data self data archive_timestamp counts of
             (self', counts') \<Rightarrow> process_members self' json_files archive_timestamp counts')
      | JSONDecodeError \<Rightarrow> process_members self json_files archive_timestamp counts
      | OtherError \<Rightarrow> process_members self json_files archive_timestamp counts)"

text \<open>The update of \<open>self.stats\<close> at the end of a file or archive (lines 286-288, 394-396).\<close>

definition add_counts :: "nat \<times> nat \<times> nat \<Rightarrow> stats \<Rightarrow> stats" where
  "add_counts counts st =
     (case counts of (entries_processed, games_added, games_updated) \<Rightarrow>
        st\<lparr>total_entries_processed := total_entries_processed st + entries_processed,
           total_games_added := total_games_added st + games_added,
           total_games_updated := total_games_updated st + games_updated\<rparr>)"

text \<open>
  \<open>ProtonDBExtractor.process_archive\<close> (lines 194-310), on the archive's file name and
  contents. An exception outside the per-file \<open>try\<close> (a failing \<open>tarfile.open\<close>) is caught
  by the outer handler, which returns \<open>(0, 0, 0)\<close>.
\<close>

definition process_archive ::
    "(int \<Rightarrow> int) \<Rightarrow> int \<Rightarrow> extractor \<Rightarrow> string \<times> tar \<Rightarrow> extractor \<times> nat \<times> nat \<times> nat" where
  "process_archive utcoffset now self archive =
     (case archive of (filename, contents) \<Rightarrow>
        let archive_timestamp = extract_timestamp ''.tar.gz'' utcoffset now filename in
          (case contents of
             TarError \<Rightarrow> (self, 0, 0, 0)
           | Extracted json_files \<Rightarrow>
               (case process_members self json_files archive_timestamp (0, 0, 0) of
                  (self', counts) \<Rightarrow>
                    (self'\<lparr>stats :=
                        (add_counts counts (stats self'))
                          \<lparr>processed_archives := processed_archives (stats self') + 1\<rparr>\<rparr>,
                     counts))))"

text \<open>
  \<open>ProtonDBExtractor.process_json_file\<close> (lines 312-426), on the file's name and what
  loading it gives. \<open>json.load\<close> runs before any entry is processed; when it raises, the
  outer handler returns \<open>(0, 0, 0)\<close>. The optional removal of the file afterwards acts on
  the file system only.
\<close>

definition process_json_file ::
    "(int \<Rightarrow> int) \<Rightarrow> int \<Rightarrow> extractor \<Rightarrow> string \<times> load_result
       \<Rightarrow> extractor \<times> nat \<times> nat \<times> nat" where
  "process_json_file utcoffset now self json_file =
     (case json_file of (filename, loaded) \<Rightarrow>
        let file_timestamp = extract_timestamp ''.json'' utcoffset now filename in
          (case loaded of
             Loaded data \<Rightarrow>
               (case process_data self data file_timestamp (0, 0, 0) of
                  (self', counts) \<Rightarrow>
                    (self'\<lparr>stats :=
                        (add_counts counts (stats self'))
                          \<lparr>processed_json_files := processed_json_files (stats self') + 1\<rparr>\<rparr>,
                     counts))
           | JSONDecodeError \<Rightarrow> (self, 0, 0, 0)
           | OtherError \<Rightarrow> (self, 0, 0, 0)))"

text \<open>
  \<open>ProtonDBExtractor.run\<close> (lines 428-499) on the table found in the database file, the
  sorted archives and the sorted loose JSON files. Each file comes with the reading of the
  clock at the moment it is processed. \<open>print_stats\<close> only reads.
\<close>

definition run ::
    "(int \<Rightarrow> int) \<Rightarrow> games_table \<Rightarrow> (int \<times> string \<times> tar) list
       \<Rightarrow> (int \<times> string \<times> load_result) list \<Rightarrow> extractor" where
  "run utcoffset db archives json_files =
     (let self0 = new_extractor db;
          self1 = self0\<lparr>stats := (stats self0)\<lparr>total_archives := length archives,
                                                  processed_archives := 0\<rparr>\<rparr>;
          self2 = self1\<lparr>stats := (stats self1)\<lparr>total_json_files := length json_files,
                                                  processed_json_files := 0\<rparr>\<rparr>;
          self3 = fold (\<lambda>(now, archive) s. fst (process_archive utcoffset now s archive))
                    archives self2
      in fold (\<lambda>(now, json_file) s. fst (process_json_file utcoffset now s json_file))
           json_files self3)"

text \<open>
  The observations that the inputs of a run hold, in the order of the run: the entries of
  every file that loads, each with the fallback timestamp of its archive or loose file.
  A file that does not load and an archive that does not open hold none. These functions
  say what a run is expected to reconcile; they are not taken from the code.
\<close>

definition entries_of :: "document \<Rightarrow> entry_data list" where
  "entries_of data = (case data of DataList entries \<Rightarrow> entries | DataSingle entry \<Rightarrow> [entry])"

definition loaded_entries :: "load_result \<Rightarrow> entry_data list" where
  "loaded_entries loaded = (case loaded of Loaded data \<Rightarrow> entries_of data | _ \<Rightarrow> [])"

definition archive_observations ::
    "(int \<Rightarrow> int) \<Rightarrow> int \<times> string \<times> tar \<Rightarrow> (entry_data \<times> int option) list" where
  "archive_observations utcoffset a =
     (case a of (now, filename, contents) \<Rightarrow>
        (case contents of
           TarError \<Rightarrow> []
         | Extracted json_files \<Rightarrow>
             map (\<lambda>entry. (entry, extract_timestamp ''.tar.gz'' utcoffset now filename))
               (concat (map loaded_entries json_files))))"

definition json_file_observations ::
    "(int \<Rightarrow> int) \<Rightarrow> int \<times> string \<times> load_result \<Rightarrow> (entry_data \<times> int option) list" where
  "json_file_observations utcoffset j =
     (case j of (now, filename, loaded) \<Rightarrow>
        map (\<lambda>entry. (entry, extract_timestamp ''.json'' utcoffset now filename))
          (loaded_entries loaded))"

definition run_observations ::
    "(int \<Rightarrow> int) \<Rightarrow> (int \<times> string \<times> tar) list \<Rightarrow> (int \<times> string \<times> load_result) list
       \<Rightarrow> (entry_data \<times> int option) list" where
  "run_observations utcoffset archives json_files =
     concat (map (archive_observations utcoffset) archives)
       @ concat (map (json_file_observations utcoffset) json_files)"

text \<open>Whether an archive opens, and whether a file loads.\<close>

definition opens :: "int \<times> string \<times> tar \<Rightarrow> bool" where
  "opens a = (case a of (now, filename, contents) \<Rightarrow>
                (case contents of TarError \<Rightarrow> False | Extracted json_files \<Rightarrow> True))"

definition loads :: "int \<times> string \<times> load_result \<Rightarrow> bool" where
  "loads j = (case j of (now, filename, loaded) \<Rightarrow>
                (case loaded of Loaded data \<Rightarrow> True | _ \<Rightarrow> False))"

text \<open>
  How the counters \<open>st\<close> stand after \<open>n\<close> more entries, \<open>pa\<close> more archives and \<open>pj\<close> more
  loose files have been processed from the counters \<open>st0\<close>.
\<close>

definition counted :: "stats \<Rightarrow> nat \<Rightarrow> nat \<Rightarrow> nat \<Rightarrow> stats \<Rightarrow> bool" where
  "counted st0 n pa pj st =
     (total_entries_processed st = total_entries_processed st0 + n
      \<and> processed_archives st = processed_archives st0 + pa
      \<and> processed_json_files st = processed_json_files st0 + pj
      \<and> total_archives st = total_archives st0
      \<and> total_json_files st = total_json_files st0)"

text \<open>
  An extractor with the two totals that \<open>get_archive_files\<close> and \<open>get_json_files\<close> set
  replaced; used to compare runs over different numbers of files.
\<close>

definition set_totals :: "nat \<Rightarrow> nat \<Rightarrow> extractor \<Rightarrow> extractor" where
  "set_totals a j self =
     self\<lparr>stats := (stats self)\<lparr>total_archives := a, total_json_files := j\<rparr>\<rparr>"

section \<open>The catalog importer\<close>

text \<open>
  One item of the fetched list is the pair of its \<open>appid\<close> and its \<open>name\<close>. A row of the
  table \<open>apps\<close> (\<open>appid INTEGER PRIMARY KEY, name TEXT, last_updated TIMESTAMP DEFAULT
  CURRENT_TIMESTAMP\<close>) is kept under its \<open>appid\<close>.
\<close>

type_synonym app = "int \<times> string"



text \<open>\<open>collections.Counter\<close> over a sequence.\<close>

definition counter :: "'a list \<Rightarrow> ('a \<rightharpoonup> nat)" where
  "counter xs = fold (\<lambda>x m. m(x \<mapsto> (case m x of None \<Rightarrow> 1 | Some c \<Rightarrow> c + 1))) xs Map.empty"

text \<open>The dictionary comprehension \<open>{k: v for k, v in m.items() if P v}\<close>.\<close>

definition dict_filter :: "('v \<Rightarrow> bool) \<Rightarrow> ('k \<rightharpoonup> 'v) \<Rightarrow> ('k \<rightharpoonup> 'v)" where
  "dict_filter P m = (\<lambda>k. case m k of None \<Rightarrow> None | Some v \<Rightarrow> if P v then Some v else None)"

record analysis =
  duplicate_ids :: "int \<rightharpoonup> nat"
  exact_duplicates :: "int \<times> string \<rightharpoonup> nat"
  different_names :: "int \<rightharpoonup> string set"

text \<open>\<open>analyze_duplicates\<close> (lines 40-67).\<close>

definition analyze_duplicates :: "app list \<Rightarrow> analysis" where
  "analyze_duplicates apps =
     (let app_id_counts = counter (map fst apps);
          app_id_name_pairs = map (\<lambda>app. (fst app, snd app)) apps;
          app_id_name_counts = counter app_id_name_pairs;
          app_id_to_names =
            fold (\<lambda>app m. m(fst app \<mapsto>
                    insert (snd app) (case m (fst app) of None \<Rightarrow> {} | Some names \<Rightarrow> names)))
              apps Map.empty
      in \<lparr>duplicate_ids = dict_filter (\<lambda>count. count > 1) app_id_counts,
          exact_duplicates = dict_filter (\<lambda>count. count > 1) app_id_name_counts,
          different_names = dict_filter (\<lambda>names. card names > 1) app_id_to_names\<rparr>)"











section \<open>The aggregate statistics query\<close>

text \<open>SQL \<open>MAX\<close> and \<open>MIN\<close> over a column: NULLs are skipped, and the result is NULL when
  no value is left.\<close>

definition sql_max :: "int option list \<Rightarrow> int option" where
  "sql_max col =
     fold (\<lambda>x acc. case x of None \<Rightarrow> acc
                    | Some v \<Rightarrow> (case acc of None \<Rightarrow> Some v | Some a \<Rightarrow> Some (max a v)))
       col None"

definition sql_min :: "int option list \<Rightarrow> int option" where
  "sql_min col =
     fold (\<lambda>x acc. case x of None \<Rightarrow> acc
                    | Some v \<Rightarrow> (case acc of None \<Rightarrow> Some v | Some a \<Rightarrow> Some (min a v)))
       col None"

text \<open>
  SQL \<open>AVG\<close> over a column without NULLs: NULL on no rows, otherwise the quotient of the
  sum and the count. The quotient is a floating-point number; it is kept as the pair of
  the sum and the count.
\<close>

definition sql_avg :: "int list \<Rightarrow> (int \<times> nat) option" where
  "sql_avg col = (if col = [] then None else Some (sum_list col, length col))"

record 'f db_stats =
  total_games :: nat
  max_reports :: "int option"
  avg_reports :: 'f
  oldest_game_timestamp :: "int option"
  newest_game_timestamp :: "int option"

text \<open>
  \<open>ProtonDBQuerier.get_database_stats\<close> (lines 77-99). \<open>round2 (s, n)\<close> stands for Python's
  \<open>round(s / n, 2)\<close> in floating-point arithmetic, which is a parameter of the model;
  \<open>round(None, 2)\<close> raises \<open>TypeError\<close>, and nothing in the method catches it.
\<close>

definition get_database_stats ::
    "(int \<times> nat \<Rightarrow> 'f) \<Rightarrow> games_table \<Rightarrow> py_exception + 'f db_stats" where
  "get_database_stats round2 table =
     (let rows = map snd table;
          total = length rows;
          max_r = sql_max (map (\<lambda>row. Some (report_count row)) rows)
      in (case sql_avg (map report_count rows) of
            None \<Rightarrow> Inl TypeError
          | Some avg \<Rightarrow>
              Inr \<lparr>total_games = total, max_reports = max_r, avg_reports = round2 avg,
                   oldest_game_timestamp = sql_min (map first_seen rows),
                   newest_game_timestamp = sql_max (map first_seen rows)\<rparr>))"


section \<open>Properties of the reconciliation\<close>

lemma row_inv_update:
  "row_inv row \<Longrightarrow> older_than ts (first_seen row) = Inr older \<Longrightarrow> newer_than ts (last_seen row) = Inr newer \<Longrightarrow>
   row_inv (row\<lparr>first_seen := (if older then ts else first_seen row),
                last_seen := (if newer then ts else last_seen row),
                report_count := report_count row + 1\<rparr>)"
  by (auto simp: row_inv_def older_than_def newer_than_def split: option.splits if_splits)

lemma list_all_update:
  "list_all (\<lambda>(k, v). P v) al \<Longrightarrow> P v' \<Longrightarrow> list_all (\<lambda>(k, v). P v) (AList.update k' v' al)"
  by (induction al) auto

lemma map_of_list_all:
  "list_all (\<lambda>(k, v). P v) al \<Longrightarrow> map_of al k = Some v \<Longrightarrow> P v"
  by (induction al) (auto split: if_splits)

lemma process_json_entry_cases:
  obtains
    (skipped) "process_json_entry self entry timestamp = (self, False, False)"
  | (inserted) app_id ttl ts where
      "map_of (games self) app_id = None"
      "games (fst (process_json_entry self entry timestamp)) =
         games self @ [(app_id, \<lparr>title = ttl, first_seen = ts, last_seen = ts, report_count = 1\<rparr>)]"
  | (updated) app_id row ts older newer where
      "map_of (games self) app_id = Some row"
      "older_than ts (first_seen row) = Inr older"
      "newer_than ts (last_seen row) = Inr newer"
      "games (fst (process_json_entry self entry timestamp)) =
         AList.update app_id
           (row\<lparr>first_seen := (if older then ts else first_seen row),
                last_seen := (if newer then ts else last_seen row),
                report_count := report_count row + 1\<rparr>) (games self)"
proof -
  obtain a t tk where entry: "entry = Entry a t tk"
    by (cases entry)
  define ts where "ts = (case tk of None \<Rightarrow> timestamp | Some v \<Rightarrow> v)"
  show thesis
  proof (cases "\<exists>app_id ttl. a = Some app_id \<and> t = Some ttl \<and> app_id \<noteq> [] \<and> ttl \<noteq> []")
    case False
    then have "process_json_entry self entry timestamp = (self, False, False)"
      by (auto simp: process_json_entry_def entry split: option.splits)
    then show thesis by (rule skipped)
  next
    case True
    then obtain app_id ttl where
      ok: "a = Some app_id" "t = Some ttl" "app_id \<noteq> []" "ttl \<noteq> []"
      by blast
    show thesis
    proof (cases "map_of (games self) app_id")
      case None
      show thesis
      proof (cases "bindable ts")
        case False
        with ok None have "process_json_entry self entry timestamp = (self, False, False)"
          by (simp add: process_json_entry_def entry ts_def Let_def)
        then show thesis by (rule skipped)
      next
        case True
        with ok None show thesis
          by (intro inserted [of app_id ttl ts])
             (simp_all add: process_json_entry_def entry ts_def Let_def)
      qed
    next
      case (Some row)
      show thesis
      proof (cases "older_than ts (first_seen row)")
        case (Inl e)
        with ok Some have "process_json_entry self entry timestamp = (self, False, False)"
          by (simp add: process_json_entry_def entry ts_def Let_def)
        then show thesis by (rule skipped)
      next
        case older: (Inr older)
        show thesis
        proof (cases "newer_than ts (last_seen row)")
          case (Inl e)
          with ok Some older
          have "process_json_entry self entry timestamp = (self, False, False)"
            by (simp add: process_json_entry_def entry ts_def Let_def)
          then show thesis by (rule skipped)
        next
          case newer: (Inr newer)
          show thesis
          proof (cases "bindable (if older then ts else first_seen row)
              \<and> bindable (if newer then ts else last_seen row)")
            case False
            with ok Some older newer
            have "process_json_entry self entry timestamp = (self, False, False)"
              by (cases older; cases newer)
                 (simp_all add: process_json_entry_def entry ts_def Let_def)
            then show thesis by (rule skipped)
          next
            case True
            with ok Some older newer show thesis
              by (intro updated [of app_id row ts older newer]; cases older; cases newer)
                 (simp_all add: process_json_entry_def entry ts_def Let_def)
          qed
        qed
      qed
    qed
  qed
qed

lemma title_kept:
  assumes "map_of (games self) k = Some row"
  shows "\<exists>row'. map_of (games (fst (process_json_entry self entry timestamp))) k = Some row'
           \<and> title row' = title row"
proof (cases rule: process_json_entry_cases [of self entry timestamp])
  case skipped
  with assms show ?thesis by simp
next
  case (inserted app_id ttl ts)
  with assms show ?thesis
    by (simp add: map_add_def)
next
  case (updated app_id r ts older newer)
  with assms show ?thesis
    by (cases "k = app_id") (simp_all add: update_conv')
qed

lemma title_kept_all:
  "map_of (games self) k = Some row \<Longrightarrow>
   \<exists>row'. map_of (games (reconcile_all self obs)) k = Some row' \<and> title row' = title row"
proof (induction obs arbitrary: self row)
  case Nil
  then show ?case by (simp add: reconcile_all_def)
next
  case (Cons ob obs)
  obtain entry timestamp where ob: "ob = (entry, timestamp)" by (cases ob)
  from title_kept [OF Cons.prems, of entry timestamp] obtain r1 where
    r1: "map_of (games (fst (process_json_entry self entry timestamp))) k = Some r1" "title r1 = title row"
    by blast
  from Cons.IH [OF r1(1)] r1(2) show ?case
    by (simp add: reconcile_all_def ob)
qed

lemma store_inv_step:
  assumes "store_inv self"
  shows "store_inv (fst (process_json_entry self entry timestamp))"
proof (cases rule: process_json_entry_cases [of self entry timestamp])
  case skipped
  with assms show ?thesis by simp
next
  case (inserted app_id ttl ts)
  have "row_inv \<lparr>title = ttl, first_seen = ts, last_seen = ts, report_count = 1\<rparr>"
    by (simp add: row_inv_def split: option.splits)
  with assms inserted(2) show ?thesis
    by (simp add: store_inv_def)
next
  case (updated app_id row ts older newer)
  from assms updated(1) have "row_inv row"
    unfolding store_inv_def by (rule map_of_list_all)
  then have "row_inv (row\<lparr>first_seen := (if older then ts else first_seen row),
                last_seen := (if newer then ts else last_seen row),
                report_count := report_count row + 1\<rparr>)"
    using updated(2,3) by (rule row_inv_update)
  with assms show ?thesis
    unfolding store_inv_def updated(4) by (rule list_all_update)
qed

lemma store_inv_all: "store_inv self \<Longrightarrow> store_inv (reconcile_all self obs)"
  by (induction obs arbitrary: self) (auto simp: reconcile_all_def store_inv_step)





text \<open>
  C4. The title of a row is never rewritten: a row that exists keeps its title through
  any sequence of later observations, whatever titles they carry; hence after the
  observation that inserts a row (one whose timestamp SQLite can store), and any
  observations after it, the row's title is the title of that first observation.
\<close>

theorem title_first_write_wins:
  "(map_of (games self) k = Some row \<longrightarrow>
      map_option title (map_of (games (reconcile_all self obs)) k) = Some (title row))
   \<and> (app_id \<noteq> [] \<and> ttl \<noteq> [] \<and> map_of (games self) app_id = None
        \<and> bindable (case tk of None \<Rightarrow> timestamp | Some v \<Rightarrow> v) \<longrightarrow>
      map_option title
        (map_of (games (reconcile_all self
           ((Entry (Some app_id) (Some ttl) tk, timestamp) # obs))) app_id) = Some ttl)"
proof (intro conjI impI)
  assume "map_of (games self) k = Some row"
  from title_kept_all [OF this, of obs]
  show "map_option title (map_of (games (reconcile_all self obs)) k) = Some (title row)"
    by auto
next
  assume a: "app_id \<noteq> [] \<and> ttl \<noteq> [] \<and> map_of (games self) app_id = None
    \<and> bindable (case tk of None \<Rightarrow> timestamp | Some v \<Rightarrow> v)"
  define s1 where "s1 = fst (process_json_entry self (Entry (Some app_id) (Some ttl) tk) timestamp)"
  from a have "\<exists>r. map_of (games s1) app_id = Some r \<and> title r = ttl"
    by (simp add: s1_def process_json_entry_def Let_def map_add_def)
  then obtain r where r: "map_of (games s1) app_id = Some r" "title r = ttl"
    by blast
  from title_kept_all [OF r(1), of obs] r(2)
  have "map_option title (map_of (games (reconcile_all s1 obs)) app_id) = Some ttl"
    by auto
  then show "map_option title
        (map_of (games (reconcile_all self
           ((Entry (Some app_id) (Some ttl) tk, timestamp) # obs))) app_id) = Some ttl"
    by (simp add: reconcile_all_def s1_def)
qed

theorem title_first_write_wins_witness:
  "map_option title
     (map_of (games (reconcile_all (new_extractor [])
        [(Entry (Some ''123'') (Some ''Foo'') None, Some 200),
         (Entry (Some ''123'') (Some ''FOO II'') None, Some 100),
         (Entry (Some ''123'') (Some ''foo'') (Some (Some 300)), None)])) ''123'') = Some ''Foo''"
proof -
  have h: "''123'' \<noteq> [] \<and> ''Foo'' \<noteq> [] \<and> map_of (games (new_extractor [])) ''123'' = None
      \<and> bindable (case None of None \<Rightarrow> Some 200 | Some v \<Rightarrow> v)"
    by (simp add: new_extractor_def bindable_def sqlite_int_def)
  from title_first_write_wins [where self = "new_extractor []" and app_id = "''123''"
      and ttl = "''Foo''" and tk = None and timestamp = "Some 200"
      and obs = "[(Entry (Some ''123'') (Some ''FOO II'') None, Some 100),
         (Entry (Some ''123'') (Some ''foo'') (Some (Some 300)), None)]"] h
  show ?thesis by blast
qed

text \<open>
  C5. Every row of every reachable table satisfies \<open>first_seen \<le> last_seen\<close> (when both
  are non-null) and \<open>report_count \<ge> 1\<close>: the invariant holds of the empty table, each call
  of \<open>process_json_entry\<close> (insert, update or skip) preserves it, and so does any sequence
  of calls.
\<close>

theorem store_invariant:
  "store_inv (new_extractor [])
   \<and> (store_inv self \<longrightarrow> store_inv (fst (process_json_entry self entry timestamp)))
   \<and> (store_inv self \<longrightarrow> store_inv (reconcile_all self obs))
   \<and> store_inv (reconcile_all (new_extractor []) obs)"
proof -
  have e: "store_inv (new_extractor [])"
    by (simp add: store_inv_def new_extractor_def)
  from e store_inv_step store_inv_all show ?thesis
    by blast
qed

theorem store_invariant_witness:
  "store_inv (new_extractor [(''123'', \<lparr>title = ''Foo'', first_seen = Some 100,
       last_seen = Some 200, report_count = 1\<rparr>)])
   \<and> fst (process_json_entry (new_extractor [(''123'', \<lparr>title = ''Foo'', first_seen = Some 100,
       last_seen = Some 200, report_count = 1\<rparr>)]) (Entry (Some ''123'') (Some ''Bar'') None) (Some 50))
      = \<lparr>games = [(''123'', \<lparr>title = ''Foo'', first_seen = Some 50,
            last_seen = Some 200, report_count = 2\<rparr>)],
         processed_games = {''123''}, stats = empty_stats\<rparr>
   \<and> store_inv (fst (process_json_entry (new_extractor [(''123'', \<lparr>title = ''Foo'', first_seen = Some 100,
       last_seen = Some 200, report_count = 1\<rparr>)]) (Entry (Some ''123'') (Some ''Bar'') None) (Some 50)))"
proof -
  define s where "s = new_extractor [(''123'', \<lparr>title = ''Foo'', first_seen = Some 100,
       last_seen = Some 200, report_count = 1\<rparr>)]"
  have h: "store_inv s"
    by (simp add: s_def store_inv_def new_extractor_def row_inv_def)
  have v: "fst (process_json_entry s (Entry (Some ''123'') (Some ''Bar'') None) (Some 50))
      = \<lparr>games = [(''123'', \<lparr>title = ''Foo'', first_seen = Some 50,
            last_seen = Some 200, report_count = 2\<rparr>)],
         processed_games = {''123''}, stats = empty_stats\<rparr>"
    by (simp add: s_def process_json_entry_def new_extractor_def older_than_def newer_than_def
        bindable_def sqlite_int_def)
  from store_invariant [of s "Entry (Some ''123'') (Some ''Bar'') None" "Some 50" "[]"] h
  have "store_inv (fst (process_json_entry s (Entry (Some ''123'') (Some ''Bar'') None) (Some 50)))"
    by blast
  with h v show ?thesis
    unfolding s_def by blast
qed

text \<open>
  On a row whose two bounds are both set, the update does widen the range and count the
  observation: a timestamp that is null or \<open>0\<close> leaves the bounds alone, any other one
  that SQLite can store gives the minimum and the maximum.
\<close>

lemma update_of_dated_row:
  assumes "app_id \<noteq> []" and "ttl \<noteq> []"
    and "map_of (games self) app_id = Some row"
    and "first_seen row = Some f" and "last_seen row = Some l"
    and "sqlite_int f" and "sqlite_int l" and "bindable ts"
    and "ts = (case tk of None \<Rightarrow> timestamp | Some v \<Rightarrow> v)"
  shows "process_json_entry self (Entry (Some app_id) (Some ttl) tk) timestamp =
           (self\<lparr>games :=
                AList.update app_id
                  (row\<lparr>first_seen := (case ts of None \<Rightarrow> Some f
                                         | Some t \<Rightarrow> if t = 0 then Some f else Some (min f t)),
                       last_seen := (case ts of None \<Rightarrow> Some l
                                        | Some t \<Rightarrow> if t = 0 then Some l else Some (max l t)),
                       report_count := report_count row + 1\<rparr>)
                  (games self),
              processed_games := insert app_id (processed_games self)\<rparr>,
            False, True)"
  using assms(1-8) unfolding assms(9)
  by (cases "case tk of None \<Rightarrow> timestamp | Some v \<Rightarrow> v")
     (auto simp: process_json_entry_def older_than_def newer_than_def min_def max_def Let_def
        bindable_def)

text \<open>
  C1. A game first seen in an observation without any timestamp has null bounds. A later
  observation of the same game with a timestamp raises \<open>TypeError\<close> at
  \<open>entry_timestamp < first_seen\<close>; the handler returns \<open>(False, False)\<close>, the \<open>UPDATE\<close> never
  runs: the bounds stay null and \<open>report_count\<close> stays 1.
\<close>

theorem null_bound_observation_dropped:
  "process_json_entry (new_extractor []) (Entry (Some ''123'') (Some ''Foo'') None) None =
     (\<lparr>games = [(''123'', \<lparr>title = ''Foo'', first_seen = None, last_seen = None,
                   report_count = 1\<rparr>)],
       processed_games = {''123''}, stats = empty_stats\<rparr>, True, False)
   \<and> process_json_entry
       \<lparr>games = [(''123'', \<lparr>title = ''Foo'', first_seen = None, last_seen = None,
                   report_count = 1\<rparr>)],
        processed_games = {''123''}, stats = empty_stats\<rparr>
       (Entry (Some ''123'') (Some ''Foo'') None) (Some 1581724800) =
     (\<lparr>games = [(''123'', \<lparr>title = ''Foo'', first_seen = None, last_seen = None,
                   report_count = 1\<rparr>)],
       processed_games = {''123''}, stats = empty_stats\<rparr>, False, False)"
  by (simp add: process_json_entry_def new_extractor_def older_than_def newer_than_def
      bindable_def)

section \<open>Properties of the timestamp inference\<close>

lemma month_map_names:
  assumes "map_of month_map mon = Some k"
  shows "mon \<noteq> [] \<and> list_all is_lower mon \<and> 1 \<le> k \<and> k \<le> 12"
proof -
  from assms have "(mon, k) \<in> set month_map"
    by (rule map_of_SomeD)
  then show ?thesis
    by (auto simp: month_map_def is_lower_def)
qed

lemma not_lower_digit: "is_digit c \<Longrightarrow> \<not> is_lower c"
  by (simp add: is_digit_def is_lower_def)

lemma takeWhile_lower_stop:
  assumes "list_all is_lower mon" and "list_all is_digit ds"
  shows "takeWhile is_lower (mon @ ds @ CHR ''_'' # r) = mon"
    and "dropWhile is_lower (mon @ ds @ CHR ''_'' # r) = ds @ CHR ''_'' # r"
proof -
  have u: "\<not> is_lower CHR ''_''"
    by (simp add: is_lower_def)
  have stop: "\<not> is_lower (hd (ds @ CHR ''_'' # r))"
    using assms(2) u by (cases ds) (simp_all add: not_lower_digit)
  have ne: "ds @ CHR ''_'' # r \<noteq> []" by simp
  from stop ne have t: "takeWhile is_lower (ds @ CHR ''_'' # r) = []"
    by (cases "ds @ CHR ''_'' # r") simp_all
  from stop ne have d: "dropWhile is_lower (ds @ CHR ''_'' # r) = ds @ CHR ''_'' # r"
    by (cases "ds @ CHR ''_'' # r") simp_all
  from assms(1) have all: "\<forall>x\<in>set mon. is_lower x"
    by (simp add: list_all_iff)
  from all t show "takeWhile is_lower (mon @ ds @ CHR ''_'' # r) = mon"
    by (simp add: takeWhile_append2)
  from all d show "dropWhile is_lower (mon @ ds @ CHR ''_'' # r) = ds @ CHR ''_'' # r"
    by (simp add: dropWhile_append2)
qed

lemma takeWhile_digit_stop:
  assumes "list_all is_digit ds"
  shows "takeWhile is_digit (ds @ CHR ''_'' # r) = ds"
    and "dropWhile is_digit (ds @ CHR ''_'' # r) = CHR ''_'' # r"
proof -
  from assms have all: "\<forall>x\<in>set ds. is_digit x"
    by (simp add: list_all_iff)
  have u: "\<not> is_digit CHR ''_''" by (simp add: is_digit_def)
  from all u show "takeWhile is_digit (ds @ CHR ''_'' # r) = ds"
    by (simp add: takeWhile_append2)
  from all u show "dropWhile is_digit (ds @ CHR ''_'' # r) = CHR ''_'' # r"
    by (simp add: dropWhile_append2)
qed

lemma re_match_shape:
  assumes "mon \<noteq> []" and "list_all is_lower mon" and "list_all is_digit ds"
    and "length ys = 4" and "list_all is_digit ys"
  shows "re_match ext (''reports_'' @ mon @ ds @ ''_'' @ ys @ ext @ rest) = Some (mon, ds, ys)"
proof -
  have p: "prefix ''reports_'' (''reports_'' @ mon @ ds @ ''_'' @ ys @ ext @ rest)"
    by (rule prefixI) simp
  have d: "drop 8 (''reports_'' @ mon @ ds @ ''_'' @ ys @ ext @ rest)
             = mon @ ds @ CHR ''_'' # (ys @ ext @ rest)"
    by simp
  note tl = takeWhile_lower_stop [OF assms(2,3), of "ys @ ext @ rest"]
  note td = takeWhile_digit_stop [OF assms(3), of "ys @ ext @ rest"]
  show ?thesis
    unfolding re_match_def Let_def d tl td
    using p assms(1,4,5) by simp
qed


lemma py_int_four_digits:
  assumes "length ys = 4" and "list_all is_digit ys"
  shows "0 \<le> py_int ys \<and> py_int ys \<le> 9999"
proof -
  from assms(1) obtain a b c d where ys: "ys = [a, b, c, d]"
    by (auto simp: length_Suc_conv numeral_eq_Suc)
  from assms(2) show ?thesis
    unfolding ys py_int_def is_digit_def by simp
qed

lemma day_15_exists:
  assumes "1 \<le> k" and "k \<le> 12"
  shows "15 \<le> days_in_month year k"
proof -
  from assms have "k \<in> {1, 2, 3, 4, 5, 6, 7, 8, 9, 10, 11, 12}"
    by (simp only: insert_iff empty_iff) arith
  then show ?thesis
    by (auto simp: days_in_month_def)
qed

text \<open>
  C2 (amended). A name that starts with \<open>reports_\<close>, one of the twelve month
  abbreviations, optional digits, \<open>_\<close>, four digits and the suffix gets the timestamp of
  local midnight on the 15th of that month and year, unless the four digits are \<open>0000\<close>,
  which no \<open>datetime\<close> accepts: then it gets none. A name the pattern matches with another
  lower-case word in the month's place gets none, whether or not it contains
  \<open>piiremoved\<close>. A name the pattern does not match gets the current time when it contains
  \<open>piiremoved\<close> and none otherwise.
\<close>

theorem extract_timestamp_cases:
  "(map_of month_map mon = Some k \<and> list_all is_digit ds \<and> length ys = 4 \<and> list_all is_digit ys
      \<longrightarrow> extract_timestamp ext utcoffset now (''reports_'' @ mon @ ds @ ''_'' @ ys @ ext @ rest) =
            (if py_int ys = 0 then None
             else Some (dt_timestamp utcoffset (py_int ys, k, 15))))
   \<and> (re_match ext filename = Some (m, d, y) \<and> map_of month_map m = None
      \<longrightarrow> extract_timestamp ext utcoffset now filename = None)
   \<and> (re_match ext filename = None \<and> contains ''piiremoved'' filename
      \<longrightarrow> extract_timestamp ext utcoffset now filename = Some now)
   \<and> (re_match ext filename = None \<and> \<not> contains ''piiremoved'' filename
      \<longrightarrow> extract_timestamp ext utcoffset now filename = None)"
proof (intro conjI impI)
  assume a: "map_of month_map mon = Some k \<and> list_all is_digit ds \<and> length ys = 4
    \<and> list_all is_digit ys"
  from a month_map_names [of mon k]
  have mon: "mon \<noteq> []" "list_all is_lower mon" and k: "1 \<le> k" "k \<le> 12"
    by simp_all
  from a have m: "re_match ext (''reports_'' @ mon @ ds @ ''_'' @ ys @ ext @ rest) = Some (mon, ds, ys)"
    by (intro re_match_shape mon) simp_all
  from a py_int_four_digits [of ys] have y: "0 \<le> py_int ys" "py_int ys \<le> 9999"
    by simp_all
  from k have d: "15 \<le> days_in_month (py_int ys) k"
    by (rule day_15_exists)
  show "extract_timestamp ext utcoffset now (''reports_'' @ mon @ ds @ ''_'' @ ys @ ext @ rest) =
            (if py_int ys = 0 then None
             else Some (dt_timestamp utcoffset (py_int ys, k, 15)))"
    unfolding extract_timestamp_def m
    using a y k d by (simp add: datetime_def)
qed (simp_all add: extract_timestamp_def)

theorem extract_timestamp_cases_witness:
  "extract_timestamp ''.tar.gz'' (\<lambda>_. 0) 1700000000 ''reports_feb_2020.tar.gz'' = Some 1581724800
   \<and> extract_timestamp ''.json'' (\<lambda>_. 3600) 1700000000 ''reports_dec1_2019.json'' = Some 1576364400
   \<and> extract_timestamp ''.tar.gz'' (\<lambda>_. 0) 1700000000 ''reports_xyz_2020.tar.gz'' = None
   \<and> extract_timestamp ''.tar.gz'' (\<lambda>_. 0) 1700000000 ''reports_piiremoved.tar.gz'' = Some 1700000000
   \<and> extract_timestamp ''.tar.gz'' (\<lambda>_. 0) 1700000000 ''games.tar.gz'' = None"
proof -
  have ev: "dt_timestamp (\<lambda>_. 0) (py_int ''2020'', 2, 15) = 1581724800"
     "dt_timestamp (\<lambda>_. 3600) (py_int ''2019'', 12, 15) = 1576364400"
     "py_int ''2020'' \<noteq> 0" "py_int ''2019'' \<noteq> 0"
    by (simp_all add: dt_timestamp_def ymd2ord_def days_before_year_def days_before_month_def
        is_leap_def py_int_def)
  have h1: "map_of month_map ''feb'' = Some 2 \<and> list_all is_digit [] \<and> length ''2020'' = 4
      \<and> list_all is_digit ''2020''"
    by (simp add: month_map_def is_digit_def)
  have h2: "map_of month_map ''dec'' = Some 12 \<and> list_all is_digit ''1'' \<and> length ''2019'' = 4
      \<and> list_all is_digit ''2019''"
    by (simp add: month_map_def is_digit_def)
  have h3: "re_match ''.tar.gz'' ''reports_xyz_2020.tar.gz'' = Some (''xyz'', [], ''2020'')
      \<and> map_of month_map ''xyz'' = None"
    by (simp add: re_match_def month_map_def is_digit_def is_lower_def)
  have h4: "re_match ''.tar.gz'' ''reports_piiremoved.tar.gz'' = None
      \<and> contains ''piiremoved'' ''reports_piiremoved.tar.gz''"
    by (simp add: re_match_def is_digit_def is_lower_def)
  have h5: "re_match ''.tar.gz'' ''games.tar.gz'' = None
      \<and> \<not> contains ''piiremoved'' ''games.tar.gz''"
    by (simp add: re_match_def)
  from extract_timestamp_cases [where mon = "''feb''" and k = 2 and ds = "[]" and ys = "''2020''"
      and ext = "''.tar.gz''" and utcoffset = "\<lambda>_. 0" and now = 1700000000 and rest = "[]"
      and filename = "''reports_xyz_2020.tar.gz''" and m = "''xyz''" and d = "[]" and y = "''2020''"]
    h1 h3 ev
  have r1: "extract_timestamp ''.tar.gz'' (\<lambda>_. 0) 1700000000 ''reports_feb_2020.tar.gz'' = Some 1581724800"
    and r3: "extract_timestamp ''.tar.gz'' (\<lambda>_. 0) 1700000000 ''reports_xyz_2020.tar.gz'' = None"
    by simp_all
  from extract_timestamp_cases [where mon = "''dec''" and k = 12 and ds = "''1''" and ys = "''2019''"
      and ext = "''.json''" and utcoffset = "\<lambda>_. 3600" and now = 1700000000 and rest = "[]"]
    h2 ev
  have r2: "extract_timestamp ''.json'' (\<lambda>_. 3600) 1700000000 ''reports_dec1_2019.json'' = Some 1576364400"
    by simp
  from extract_timestamp_cases [where ext = "''.tar.gz''" and utcoffset = "\<lambda>_. 0"
      and now = 1700000000 and filename = "''reports_piiremoved.tar.gz''"] h4
  have r4: "extract_timestamp ''.tar.gz'' (\<lambda>_. 0) 1700000000 ''reports_piiremoved.tar.gz'' = Some 1700000000"
    by blast
  from extract_timestamp_cases [where ext = "''.tar.gz''" and utcoffset = "\<lambda>_. 0"
      and now = 1700000000 and filename = "''games.tar.gz''"] h5
  have r5: "extract_timestamp ''.tar.gz'' (\<lambda>_. 0) 1700000000 ''games.tar.gz'' = None"
    by blast
  from r1 r2 r3 r4 r5 show ?thesis by blast
qed

theorem piiremoved_with_year_counterexample:
  "contains ''piiremoved'' ''reports_piiremoved_2020.tar.gz''
   \<and> extract_timestamp ''.tar.gz'' (\<lambda>_. 0) 1700000000 ''reports_piiremoved_2020.tar.gz'' = None
   \<and> extract_timestamp ''.tar.gz'' (\<lambda>_. 0) 1700000000 ''reports_jan_0000.tar.gz'' = None"
  by (simp add: extract_timestamp_def re_match_def is_lower_def is_digit_def month_map_def
      py_int_def datetime_def)

section \<open>Properties of the duplicate analysis\<close>

lemma counter_fold:
  "fold (\<lambda>x m. m(x \<mapsto> (case m x of None \<Rightarrow> 1 | Some c \<Rightarrow> c + 1))) xs m0 k =
     (if count_list xs k = 0 then m0 k
      else Some (count_list xs k + (case m0 k of None \<Rightarrow> 0 | Some c \<Rightarrow> c)))"
proof -
  define step :: "'a \<Rightarrow> ('a \<rightharpoonup> nat) \<Rightarrow> ('a \<rightharpoonup> nat)"
    where "step = (\<lambda>x m. m(x \<mapsto> (case m x of None \<Rightarrow> 1 | Some c \<Rightarrow> c + 1)))"
  have step: "step x m j = (if j = x then Some (case m x of None \<Rightarrow> 1 | Some c \<Rightarrow> c + 1) else m j)"
    for x m j
    by (simp add: step_def)
  have "fold step xs m0 k =
     (if count_list xs k = 0 then m0 k
      else Some (count_list xs k + (case m0 k of None \<Rightarrow> 0 | Some c \<Rightarrow> c)))"
  proof (induction xs arbitrary: m0)
    case Nil
    show ?case by simp
  next
    case (Cons x xs)
    have "fold step (x # xs) m0 k = fold step xs (step x m0) k"
      by simp
    also have "\<dots> = (if count_list xs k = 0 then step x m0 k
        else Some (count_list xs k + (case step x m0 k of None \<Rightarrow> 0 | Some c \<Rightarrow> c)))"
      by (rule Cons.IH)
    also have "\<dots> = (if count_list (x # xs) k = 0 then m0 k
        else Some (count_list (x # xs) k + (case m0 k of None \<Rightarrow> 0 | Some c \<Rightarrow> c)))"
      by (simp add: step split: option.splits)
    finally show ?case .
  qed
  then show ?thesis
    by (simp add: step_def)
qed

lemma counter_count_list:
  "counter xs k = (if count_list xs k = 0 then None else Some (count_list xs k))"
  by (simp add: counter_def counter_fold)

lemma names_fold:
  "fold (\<lambda>app m. m(fst app \<mapsto>
            insert (snd app) (case m (fst app) of None \<Rightarrow> {} | Some names \<Rightarrow> names)))
      (apps :: ('a \<times> 'b) list) m0 k =
     (if k \<in> fst ` set apps
      then Some (snd ` {app \<in> set apps. fst app = k} \<union> (case m0 k of None \<Rightarrow> {} | Some names \<Rightarrow> names))
      else m0 k)"
proof -
  define step
    where "step = (\<lambda>(app :: 'a \<times> 'b) (m :: 'a \<rightharpoonup> 'b set). m(fst app \<mapsto>
            insert (snd app) (case m (fst app) of None \<Rightarrow> {} | Some names \<Rightarrow> names)))"
  have step: "step app m j =
      (if j = fst app
       then Some (insert (snd app) (case m (fst app) of None \<Rightarrow> {} | Some names \<Rightarrow> names))
       else m j)" for app m j
    by (simp add: step_def)
  have "fold step apps m0 k =
     (if k \<in> fst ` set apps
      then Some (snd ` {app \<in> set apps. fst app = k} \<union> (case m0 k of None \<Rightarrow> {} | Some names \<Rightarrow> names))
      else m0 k)"
  proof (induction apps arbitrary: m0)
    case Nil
    show ?case by simp
  next
    case (Cons app apps)
    have split_set: "{a \<in> set (app # apps). fst a = k} =
        (if fst app = k then insert app {a \<in> set apps. fst a = k} else {a \<in> set apps. fst a = k})"
      by auto
    have none: "k \<notin> fst ` set apps \<Longrightarrow> {a \<in> set apps. fst a = k} = {}"
      by force
    have "fold step (app # apps) m0 k = fold step apps (step app m0) k"
      by simp
    also have "\<dots> = (if k \<in> fst ` set apps
      then Some (snd ` {a \<in> set apps. fst a = k}
                  \<union> (case step app m0 k of None \<Rightarrow> {} | Some names \<Rightarrow> names))
      else step app m0 k)"
      by (rule Cons.IH)
    also have "\<dots> = (if k \<in> fst ` set (app # apps)
      then Some (snd ` {a \<in> set (app # apps). fst a = k}
                  \<union> (case m0 k of None \<Rightarrow> {} | Some names \<Rightarrow> names))
      else m0 k)"
      unfolding split_set
      by (auto simp: step none split: option.splits)
    finally show ?case .
  qed
  then show ?thesis
    by (simp add: step_def)
qed

text \<open>
  C7. For every fetched list, \<open>duplicate_ids\<close> has exactly the ids that occur more than
  once, each with the number of its occurrences; \<open>exact_duplicates\<close> has exactly the
  \<open>(id, name)\<close> pairs that occur more than once, each with its count; and
  \<open>different_names\<close> has exactly the ids listed with more than one distinct name, each with
  the set of its names.
\<close>

theorem analyze_duplicates_exact:
  "duplicate_ids (analyze_duplicates apps) app_id =
     (if count_list (map fst apps) app_id > 1
      then Some (count_list (map fst apps) app_id) else None)
   \<and> exact_duplicates (analyze_duplicates apps) pair =
     (if count_list apps pair > 1 then Some (count_list apps pair) else None)
   \<and> different_names (analyze_duplicates apps) app_id =
     (if card (snd ` {app \<in> set apps. fst app = app_id}) > 1
      then Some (snd ` {app \<in> set apps. fst app = app_id}) else None)"
proof (intro conjI)
  show "duplicate_ids (analyze_duplicates apps) app_id =
     (if count_list (map fst apps) app_id > 1
      then Some (count_list (map fst apps) app_id) else None)"
    by (simp add: analyze_duplicates_def dict_filter_def counter_count_list)
  show "exact_duplicates (analyze_duplicates apps) pair =
     (if count_list apps pair > 1 then Some (count_list apps pair) else None)"
    by (simp add: analyze_duplicates_def dict_filter_def counter_count_list)
  have e: "app_id \<notin> fst ` set apps \<Longrightarrow> snd ` {app \<in> set apps. fst app = app_id} = {}"
    by force
  show "different_names (analyze_duplicates apps) app_id =
     (if card (snd ` {app \<in> set apps. fst app = app_id}) > 1
      then Some (snd ` {app \<in> set apps. fst app = app_id}) else None)"
    by (cases "app_id \<in> fst ` set apps")
       (simp_all add: analyze_duplicates_def dict_filter_def names_fold e)
qed

theorem analyze_duplicates_exact_witness:
  "duplicate_ids (analyze_duplicates [(10, ''A''), (10, ''B''), (20, ''C''), (20, ''C'')]) 10 = Some 2
   \<and> different_names (analyze_duplicates [(10, ''A''), (10, ''B''), (20, ''C''), (20, ''C'')]) 10
       = Some {''A'', ''B''}
   \<and> exact_duplicates (analyze_duplicates [(10, ''A''), (10, ''B''), (20, ''C''), (20, ''C'')]) (20, ''C'')
       = Some 2
   \<and> different_names (analyze_duplicates [(10, ''A''), (10, ''B''), (20, ''C''), (20, ''C'')]) 20 = None
   \<and> exact_duplicates (analyze_duplicates [(10, ''A''), (10, ''B''), (20, ''C''), (20, ''C'')]) (10, ''A'')
       = None"
proof -
  define apps :: "app list" where "apps = [(10, ''A''), (10, ''B''), (20, ''C''), (20, ''C'')]"
  have n10: "snd ` {app \<in> set apps. fst app = 10} = {''A'', ''B''}"
    and n20: "snd ` {app \<in> set apps. fst app = 20} = {''C''}"
    unfolding set_filter [symmetric] apps_def
    by (simp_all del: set_filter)
  have c: "count_list (map fst apps) 10 = 2" "count_list apps (20, ''C'') = 2"
    "count_list apps (10, ''A'') = 1"
    by (simp_all add: apps_def)
  have k: "card {''A'', ''B''} = 2" "card {''C''} = 1"
    by simp_all
  from analyze_duplicates_exact [of apps 10 "(20, ''C'')"]
  have "duplicate_ids (analyze_duplicates apps) 10 = Some 2"
    and "exact_duplicates (analyze_duplicates apps) (20, ''C'') = Some 2"
    and "different_names (analyze_duplicates apps) 10 = Some {''A'', ''B''}"
    unfolding n10 c k by simp_all
  moreover from analyze_duplicates_exact [of apps 20 "(10, ''A'')"]
  have "exact_duplicates (analyze_duplicates apps) (10, ''A'') = None"
    and "different_names (analyze_duplicates apps) 20 = None"
    unfolding n20 c k by simp_all
  ultimately show ?thesis
    unfolding apps_def by blast
qed

section \<open>Properties of the catalog upsert\<close>










section \<open>Properties of the importer's run\<close>




section \<open>Properties of the statistics query\<close>

lemma Max_insert_max:
  fixes a v :: "'a::linorder"
  assumes "finite S"
  shows "Max (insert (max a v) S) = Max (insert v (insert a S))"
proof (cases "S = {}")
  case True
  then show ?thesis by (simp add: max.commute)
next
  case False
  with assms show ?thesis
    by (simp add: max.assoc max.commute max.left_commute)
qed

lemma Min_insert_min:
  fixes a v :: "'a::linorder"
  assumes "finite S"
  shows "Min (insert (min a v) S) = Min (insert v (insert a S))"
proof (cases "S = {}")
  case True
  then show ?thesis by (simp add: min.commute)
next
  case False
  with assms show ?thesis
    by (simp add: min.assoc min.commute min.left_commute)
qed

lemma sql_max_fold:
  "fold (\<lambda>x acc. case x of None \<Rightarrow> acc
                    | Some v \<Rightarrow> (case acc of None \<Rightarrow> Some v | Some a \<Rightarrow> Some (max a v)))
       col acc0 =
     (let present = [v. Some v \<leftarrow> col] @ (case acc0 of None \<Rightarrow> [] | Some a \<Rightarrow> [a])
      in if present = [] then None else Some (Max (set present)))"
proof (induction col arbitrary: acc0)
  case Nil
  show ?case by (simp split: option.splits)
next
  case (Cons x col)
  show ?case
  proof (cases x)
    case None
    then show ?thesis by (simp add: Cons.IH)
  next
    case (Some v)
    show ?thesis
    proof (cases acc0)
      case None
      with Some show ?thesis
        by (simp add: Cons.IH Let_def insert_commute)
    next
      case acc: (Some a)
      have "Max (insert (max a v) (set [v. Some v \<leftarrow> col])) =
            Max (insert v (insert a (set [v. Some v \<leftarrow> col])))"
        by (rule Max_insert_max) (rule finite_set)
      with Some acc show ?thesis
        by (simp add: Cons.IH Let_def insert_commute)
    qed
  qed
qed

lemma sql_min_fold:
  "fold (\<lambda>x acc. case x of None \<Rightarrow> acc
                    | Some v \<Rightarrow> (case acc of None \<Rightarrow> Some v | Some a \<Rightarrow> Some (min a v)))
       col acc0 =
     (let present = [v. Some v \<leftarrow> col] @ (case acc0 of None \<Rightarrow> [] | Some a \<Rightarrow> [a])
      in if present = [] then None else Some (Min (set present)))"
proof (induction col arbitrary: acc0)
  case Nil
  show ?case by (simp split: option.splits)
next
  case (Cons x col)
  show ?case
  proof (cases x)
    case None
    then show ?thesis by (simp add: Cons.IH)
  next
    case (Some v)
    show ?thesis
    proof (cases acc0)
      case None
      with Some show ?thesis
        by (simp add: Cons.IH Let_def insert_commute)
    next
      case acc: (Some a)
      have "Min (insert (min a v) (set [v. Some v \<leftarrow> col])) =
            Min (insert v (insert a (set [v. Some v \<leftarrow> col])))"
        by (rule Min_insert_min) (rule finite_set)
      with Some acc show ?thesis
        by (simp add: Cons.IH Let_def insert_commute)
    qed
  qed
qed

lemma sql_max_eq:
  "sql_max col = (if [v. Some v \<leftarrow> col] = [] then None else Some (Max (set [v. Some v \<leftarrow> col])))"
  by (simp add: sql_max_def sql_max_fold)

lemma sql_min_eq:
  "sql_min col = (if [v. Some v \<leftarrow> col] = [] then None else Some (Min (set [v. Some v \<leftarrow> col])))"
  by (simp add: sql_min_def sql_min_fold)

lemma present_of_Some:
  "[v. Some v \<leftarrow> map (\<lambda>row. Some (f row)) rows] = map f rows"
  by (induction rows) simp_all

text \<open>
  C10. On a table with at least one row the statistics query returns the number of rows,
  the largest \<open>report_count\<close>, the rounded quotient of the sum of the \<open>report_count\<close>s and
  the number of rows, and the least and greatest non-null \<open>first_seen\<close> (null when every
  \<open>first_seen\<close> is null). On the empty table the average is null, rounding it raises
  \<open>TypeError\<close>, and no statistics are returned.
\<close>

theorem get_database_stats_total_iff_rows:
  "(table \<noteq> [] \<longrightarrow>
      get_database_stats round2 table =
        Inr \<lparr>total_games = length table,
             max_reports = Some (Max (set (map (\<lambda>(app_id, row). report_count row) table))),
             avg_reports =
               round2 (sum_list (map (\<lambda>(app_id, row). report_count row) table), length table),
             oldest_game_timestamp =
               (if [t. Some t \<leftarrow> map (\<lambda>(app_id, row). first_seen row) table] = [] then None
                else Some (Min (set [t. Some t \<leftarrow> map (\<lambda>(app_id, row). first_seen row) table]))),
             newest_game_timestamp =
               (if [t. Some t \<leftarrow> map (\<lambda>(app_id, row). first_seen row) table] = [] then None
                else Some (Max (set [t. Some t \<leftarrow> map (\<lambda>(app_id, row). first_seen row) table])))\<rparr>)
   \<and> get_database_stats round2 [] = Inl TypeError"
proof (intro conjI impI)
  have snd_eq: "(\<lambda>(app_id, row). g row) = g \<circ> snd" for g :: "game \<Rightarrow> 'x"
    by (simp add: fun_eq_iff)
  assume "table \<noteq> []"
  then show "get_database_stats round2 table =
        Inr \<lparr>total_games = length table,
             max_reports = Some (Max (set (map (\<lambda>(app_id, row). report_count row) table))),
             avg_reports =
               round2 (sum_list (map (\<lambda>(app_id, row). report_count row) table), length table),
             oldest_game_timestamp =
               (if [t. Some t \<leftarrow> map (\<lambda>(app_id, row). first_seen row) table] = [] then None
                else Some (Min (set [t. Some t \<leftarrow> map (\<lambda>(app_id, row). first_seen row) table]))),
             newest_game_timestamp =
               (if [t. Some t \<leftarrow> map (\<lambda>(app_id, row). first_seen row) table] = [] then None
                else Some (Max (set [t. Some t \<leftarrow> map (\<lambda>(app_id, row). first_seen row) table])))\<rparr>"
    unfolding snd_eq get_database_stats_def Let_def sql_avg_def sql_max_eq sql_min_eq
      present_of_Some
    by (simp add: comp_def)
next
  show "get_database_stats round2 [] = Inl TypeError"
    by (simp add: get_database_stats_def sql_avg_def)
qed

theorem get_database_stats_total_iff_rows_witness:
  "get_database_stats (\<lambda>avg. avg)
     [(''123'', \<lparr>title = ''Foo'', first_seen = Some 100, last_seen = Some 300, report_count = 3\<rparr>),
      (''456'', \<lparr>title = ''Bar'', first_seen = None, last_seen = None, report_count = 1\<rparr>),
      (''789'', \<lparr>title = ''Baz'', first_seen = Some 200, last_seen = Some 200, report_count = 1\<rparr>)]
   = Inr \<lparr>total_games = 3, max_reports = Some 3, avg_reports = (5, 3),
          oldest_game_timestamp = Some 100, newest_game_timestamp = Some 200\<rparr>"
proof -
  define table :: games_table where "table =
     [(''123'', \<lparr>title = ''Foo'', first_seen = Some 100, last_seen = Some 300, report_count = 3\<rparr>),
      (''456'', \<lparr>title = ''Bar'', first_seen = None, last_seen = None, report_count = 1\<rparr>),
      (''789'', \<lparr>title = ''Baz'', first_seen = Some 200, last_seen = Some 200, report_count = 1\<rparr>)]"
  have h: "table \<noteq> []"
    by (simp add: table_def)
  from get_database_stats_total_iff_rows [of table "\<lambda>avg. avg"] h
  have "get_database_stats (\<lambda>avg. avg) table =
        Inr \<lparr>total_games = length table,
             max_reports = Some (Max (set (map (\<lambda>(app_id, row). report_count row) table))),
             avg_reports =
               (sum_list (map (\<lambda>(app_id, row). report_count row) table), length table),
             oldest_game_timestamp =
               (if [t. Some t \<leftarrow> map (\<lambda>(app_id, row). first_seen row) table] = [] then None
                else Some (Min (set [t. Some t \<leftarrow> map (\<lambda>(app_id, row). first_seen row) table]))),
             newest_game_timestamp =
               (if [t. Some t \<leftarrow> map (\<lambda>(app_id, row). first_seen row) table] = [] then None
                else Some (Max (set [t. Some t \<leftarrow> map (\<lambda>(app_id, row). first_seen row) table])))\<rparr>"
    by blast
  then show ?thesis
    unfolding table_def by simp
qed

section \<open>Properties of the walker\<close>

lemma set_totals_entry:
  "process_json_entry (set_totals a j self) entry timestamp =
     (case process_json_entry self entry timestamp of
        (self', flags) \<Rightarrow> (set_totals a j self', flags))"
  by (simp add: process_json_entry_def set_totals_def Let_def
      split: option.splits sum.splits)

lemma set_totals_entries:
  "process_entries (set_totals a j self) entries timestamp counts =
     (case process_entries self entries timestamp counts of
        (self', counts') \<Rightarrow> (set_totals a j self', counts'))"
proof (induction entries arbitrary: self counts)
  case Nil
  show ?case by simp
next
  case (Cons entry entries)
  obtain e g u where counts: "counts = (e, g, u)"
    by (cases counts)
  obtain s1 is_new is_updated where
    step: "process_json_entry self entry timestamp = (s1, is_new, is_updated)"
    by (cases "process_json_entry self entry timestamp")
  then have "process_json_entry (set_totals a j self) entry timestamp =
      (set_totals a j s1, is_new, is_updated)"
    by (simp add: set_totals_entry)
  with step show ?case
    by (simp add: counts Cons.IH)
qed

lemma set_totals_data:
  "process_data (set_totals a j self) data timestamp counts =
     (case process_data self data timestamp counts of
        (self', counts') \<Rightarrow> (set_totals a j self', counts'))"
  by (simp add: process_data_def set_totals_entries split: document.splits)

lemma set_totals_members:
  "process_members (set_totals a j self) json_files timestamp counts =
     (case process_members self json_files timestamp counts of
        (self', counts') \<Rightarrow> (set_totals a j self', counts'))"
proof (induction json_files arbitrary: self counts)
  case Nil
  show ?case by simp
next
  case (Cons json_file json_files)
  show ?case
    by (cases json_file) (simp_all add: set_totals_data Cons.IH split: prod.splits)
qed

lemma set_totals_archive:
  "fst (process_archive utcoffset now (set_totals a j self) archive) =
     set_totals a j (fst (process_archive utcoffset now self archive))"
proof -
  obtain filename contents where archive: "archive = (filename, contents)"
    by (cases archive)
  show ?thesis
  proof (cases contents)
    case TarError
    with archive show ?thesis
      by (simp add: process_archive_def)
  next
    case (Extracted json_files)
    let ?ts = "extract_timestamp ''.tar.gz'' utcoffset now filename"
    obtain s1 counts where
      m: "process_members self json_files ?ts (0, 0, 0) = (s1, counts)"
      by (cases "process_members self json_files ?ts (0, 0, 0)")
    then have m': "process_members (set_totals a j self) json_files ?ts (0, 0, 0) =
        (set_totals a j s1, counts)"
      by (simp add: set_totals_members)
    obtain e g u where counts: "counts = (e, g, u)"
      by (cases counts)
    from m m' show ?thesis
      unfolding process_archive_def archive Extracted Let_def
      by (simp add: set_totals_def add_counts_def counts)
  qed
qed

lemma set_totals_json_file:
  "fst (process_json_file utcoffset now (set_totals a j self) json_file) =
     set_totals a j (fst (process_json_file utcoffset now self json_file))"
proof -
  obtain filename loaded where json_file: "json_file = (filename, loaded)"
    by (cases json_file)
  show ?thesis
  proof (cases loaded)
    case JSONDecodeError
    with json_file show ?thesis
      by (simp add: process_json_file_def)
  next
    case OtherError
    with json_file show ?thesis
      by (simp add: process_json_file_def)
  next
    case (Loaded data)
    let ?ts = "extract_timestamp ''.json'' utcoffset now filename"
    obtain s1 counts where
      m: "process_data self data ?ts (0, 0, 0) = (s1, counts)"
      by (cases "process_data self data ?ts (0, 0, 0)")
    then have m': "process_data (set_totals a j self) data ?ts (0, 0, 0) =
        (set_totals a j s1, counts)"
      by (simp add: set_totals_data)
    obtain e g u where counts: "counts = (e, g, u)"
      by (cases counts)
    from m m' show ?thesis
      unfolding process_json_file_def json_file Loaded Let_def
      by (simp add: set_totals_def add_counts_def counts)
  qed
qed

lemma set_totals_archives:
  "fold (\<lambda>(now, archive) s. fst (process_archive utcoffset now s archive)) archives
      (set_totals a j self) =
   set_totals a j
     (fold (\<lambda>(now, archive) s. fst (process_archive utcoffset now s archive)) archives self)"
proof (induction archives arbitrary: self)
  case Nil
  show ?case by simp
next
  case (Cons x archives)
  obtain now archive where x: "x = (now, archive)"
    by (cases x)
  show ?case
    by (simp add: x set_totals_archive Cons.IH)
qed

lemma set_totals_json_files:
  "fold (\<lambda>(now, json_file) s. fst (process_json_file utcoffset now s json_file)) json_files
      (set_totals a j self) =
   set_totals a j
     (fold (\<lambda>(now, json_file) s. fst (process_json_file utcoffset now s json_file)) json_files self)"
proof (induction json_files arbitrary: self)
  case Nil
  show ?case by simp
next
  case (Cons x json_files)
  obtain now json_file where x: "x = (now, json_file)"
    by (cases x)
  show ?case
    by (simp add: x set_totals_json_file Cons.IH)
qed

lemma set_totals_twice: "set_totals a j (set_totals a' j' self) = set_totals a j self"
  by (simp add: set_totals_def)

lemma run_walk:
  "run utcoffset db archives json_files =
     set_totals (length archives) (length json_files)
       (fold (\<lambda>(now, json_file) s. fst (process_json_file utcoffset now s json_file)) json_files
          (fold (\<lambda>(now, archive) s. fst (process_archive utcoffset now s archive)) archives
             (new_extractor db)))"
proof -
  have "(new_extractor db)\<lparr>stats := (stats (new_extractor db))\<lparr>total_archives := length archives,
            processed_archives := 0\<rparr>\<rparr>\<lparr>stats := (stats ((new_extractor db)\<lparr>stats :=
              (stats (new_extractor db))\<lparr>total_archives := length archives,
            processed_archives := 0\<rparr>\<rparr>))\<lparr>total_json_files := length json_files,
            processed_json_files := 0\<rparr>\<rparr> =
        set_totals (length archives) (length json_files) (new_extractor db)"
    by (simp add: new_extractor_def empty_stats_def set_totals_def)
  then show ?thesis
    unfolding run_def Let_def
    by (simp only: set_totals_archives set_totals_json_files)
qed

lemma members_skip_bad:
  "process_members self (fpre @ JSONDecodeError # fpost) timestamp counts =
     process_members self (fpre @ fpost) timestamp counts"
proof (induction fpre arbitrary: self counts)
  case Nil
  show ?case by simp
next
  case (Cons f fpre)
  show ?case
    by (cases f) (simp_all add: Cons.IH split: prod.splits)
qed

lemma stats_frame_entry:
  "process_json_entry (self\<lparr>stats := st\<rparr>) entry timestamp =
     (case process_json_entry self entry timestamp of
        (self', flags) \<Rightarrow> (self'\<lparr>stats := st\<rparr>, flags))"
  by (simp add: process_json_entry_def Let_def split: option.splits sum.splits)

lemma stats_entry: "stats (fst (process_json_entry self entry timestamp)) = stats self"
  by (simp add: process_json_entry_def Let_def split: option.splits sum.splits)

lemma reconcile_all_append:
  "reconcile_all self (xs @ ys) = reconcile_all (reconcile_all self xs) ys"
  by (simp add: reconcile_all_def)

lemma stats_frame_all:
  "reconcile_all (self\<lparr>stats := st\<rparr>) obs = (reconcile_all self obs)\<lparr>stats := st\<rparr>"
proof (induction obs arbitrary: self)
  case Nil
  show ?case by (simp add: reconcile_all_def)
next
  case (Cons ob obs)
  obtain entry timestamp where ob: "ob = (entry, timestamp)"
    by (cases ob)
  obtain s1 flags where step: "process_json_entry self entry timestamp = (s1, flags)"
    by (cases "process_json_entry self entry timestamp")
  then have "process_json_entry (self\<lparr>stats := st\<rparr>) entry timestamp = (s1\<lparr>stats := st\<rparr>, flags)"
    by (simp add: stats_frame_entry)
  with step Cons.IH [of s1] show ?case
    by (simp add: reconcile_all_def ob)
qed

lemma stats_all: "stats (reconcile_all self obs) = stats self"
proof (induction obs arbitrary: self)
  case Nil
  show ?case by (simp add: reconcile_all_def)
next
  case (Cons ob obs)
  obtain entry timestamp where ob: "ob = (entry, timestamp)"
    by (cases ob)
  from Cons.IH [of "fst (process_json_entry self entry timestamp)"] show ?case
    by (simp add: reconcile_all_def ob stats_entry)
qed

lemma entries_reconcile:
  "\<exists>a u. process_entries self entries timestamp (e, g, upd) =
     (reconcile_all self (map (\<lambda>entry. (entry, timestamp)) entries), e + length entries, a, u)"
proof (induction entries arbitrary: self e g upd)
  case Nil
  show ?case by (simp add: reconcile_all_def)
next
  case (Cons entry entries)
  obtain s1 is_new is_updated where
    step: "process_json_entry self entry timestamp = (s1, is_new, is_updated)"
    by (cases "process_json_entry self entry timestamp")
  from Cons.IH [of s1 "e + 1" "if is_new then g + 1 else g"
      "if \<not> is_new \<and> is_updated then upd + 1 else upd"]
  obtain a u where
    "process_entries s1 entries timestamp
       (e + 1, (if is_new then g + 1 else g),
        (if \<not> is_new \<and> is_updated then upd + 1 else upd)) =
     (reconcile_all s1 (map (\<lambda>entry. (entry, timestamp)) entries), e + 1 + length entries, a, u)"
    by blast
  with step show ?case
    by (simp add: reconcile_all_def)
qed

lemma data_reconcile:
  "\<exists>a u. process_data self data timestamp (e, g, upd) =
     (reconcile_all self (map (\<lambda>entry. (entry, timestamp)) (entries_of data)),
      e + length (entries_of data), a, u)"
proof (cases data)
  case (DataList entries)
  with entries_reconcile [of self entries timestamp e g upd] show ?thesis
    by (simp add: process_data_def entries_of_def)
next
  case (DataSingle entry)
  with entries_reconcile [of self "[entry]" timestamp e g upd] show ?thesis
    by (simp add: process_data_def entries_of_def)
qed

lemma members_reconcile:
  "\<exists>a u. process_members self json_files timestamp (e, g, upd) =
     (reconcile_all self
        (map (\<lambda>entry. (entry, timestamp)) (concat (map loaded_entries json_files))),
      e + length (concat (map loaded_entries json_files)), a, u)"
proof (induction json_files arbitrary: self e g upd)
  case Nil
  show ?case by (simp add: reconcile_all_def)
next
  case (Cons json_file json_files)
  show ?case
  proof (cases json_file)
    case JSONDecodeError
    with Cons.IH [of self e g upd] show ?thesis
      by (simp add: loaded_entries_def)
  next
    case OtherError
    with Cons.IH [of self e g upd] show ?thesis
      by (simp add: loaded_entries_def)
  next
    case (Loaded data)
    from data_reconcile [of self data timestamp e g upd] obtain a u where
      d: "process_data self data timestamp (e, g, upd) =
            (reconcile_all self (map (\<lambda>entry. (entry, timestamp)) (entries_of data)),
             e + length (entries_of data), a, u)"
      by blast
    from Cons.IH [of "reconcile_all self (map (\<lambda>entry. (entry, timestamp)) (entries_of data))"
        "e + length (entries_of data)" a u]
    obtain a' u' where
      "process_members
         (reconcile_all self (map (\<lambda>entry. (entry, timestamp)) (entries_of data)))
         json_files timestamp (e + length (entries_of data), a, u) =
       (reconcile_all
          (reconcile_all self (map (\<lambda>entry. (entry, timestamp)) (entries_of data)))
          (map (\<lambda>entry. (entry, timestamp)) (concat (map loaded_entries json_files))),
        e + length (entries_of data) + length (concat (map loaded_entries json_files)), a', u')"
      by blast
    moreover from Loaded have "loaded_entries json_file = entries_of data"
      by (simp add: loaded_entries_def)
    ultimately show ?thesis
      using d Loaded by (simp add: reconcile_all_append)
  qed
qed

lemma counted_trans:
  "counted st0 n pa pj st1 \<Longrightarrow> counted st1 n' pa' pj' st2 \<Longrightarrow>
   counted st0 (n + n') (pa + pa') (pj + pj') st2"
  by (simp add: counted_def)

lemma archive_reconcile:
  "\<exists>st. fst (process_archive utcoffset now self (filename, contents)) =
          (reconcile_all self (archive_observations utcoffset (now, filename, contents)))
            \<lparr>stats := st\<rparr>
        \<and> counted (stats self)
            (length (archive_observations utcoffset (now, filename, contents)))
            (if opens (now, filename, contents) then 1 else 0) 0 st"
proof (cases contents)
  case TarError
  have "self = self\<lparr>stats := stats self\<rparr>"
    by simp
  with TarError show ?thesis
    by (intro exI [of _ "stats self"])
       (simp add: process_archive_def archive_observations_def opens_def reconcile_all_def
          counted_def)
next
  case (Extracted json_files)
  let ?ts = "extract_timestamp ''.tar.gz'' utcoffset now filename"
  let ?obs = "map (\<lambda>entry. (entry, ?ts)) (concat (map loaded_entries json_files))"
  from members_reconcile [of self json_files ?ts 0 0 0] obtain a u where
    m: "process_members self json_files ?ts (0, 0, 0) =
          (reconcile_all self ?obs, length (concat (map loaded_entries json_files)), a, u)"
    by auto
  let ?st = "(add_counts (length (concat (map loaded_entries json_files)), a, u) (stats self))
               \<lparr>processed_archives := processed_archives (stats self) + 1\<rparr>"
  have "fst (process_archive utcoffset now self (filename, contents)) =
          (reconcile_all self ?obs)\<lparr>stats := ?st\<rparr>"
    by (simp add: process_archive_def Extracted m stats_all)
  moreover have "counted (stats self) (length ?obs) 1 0 ?st"
    by (simp add: counted_def add_counts_def)
  ultimately show ?thesis
    by (intro exI [of _ ?st]) (simp add: archive_observations_def Extracted opens_def)
qed

lemma json_file_reconcile:
  "\<exists>st. fst (process_json_file utcoffset now self (filename, loaded)) =
          (reconcile_all self (json_file_observations utcoffset (now, filename, loaded)))
            \<lparr>stats := st\<rparr>
        \<and> counted (stats self)
            (length (json_file_observations utcoffset (now, filename, loaded)))
            0 (if loads (now, filename, loaded) then 1 else 0) st"
proof (cases loaded)
  case JSONDecodeError
  have "self = self\<lparr>stats := stats self\<rparr>"
    by simp
  with JSONDecodeError show ?thesis
    by (intro exI [of _ "stats self"])
       (simp add: process_json_file_def json_file_observations_def loads_def loaded_entries_def
          reconcile_all_def counted_def)
next
  case OtherError
  have "self = self\<lparr>stats := stats self\<rparr>"
    by simp
  with OtherError show ?thesis
    by (intro exI [of _ "stats self"])
       (simp add: process_json_file_def json_file_observations_def loads_def loaded_entries_def
          reconcile_all_def counted_def)
next
  case (Loaded data)
  let ?ts = "extract_timestamp ''.json'' utcoffset now filename"
  let ?obs = "map (\<lambda>entry. (entry, ?ts)) (entries_of data)"
  from data_reconcile [of self data ?ts 0 0 0] obtain a u where
    m: "process_data self data ?ts (0, 0, 0) =
          (reconcile_all self ?obs, length (entries_of data), a, u)"
    by auto
  let ?st = "(add_counts (length (entries_of data), a, u) (stats self))
               \<lparr>processed_json_files := processed_json_files (stats self) + 1\<rparr>"
  have "fst (process_json_file utcoffset now self (filename, loaded)) =
          (reconcile_all self ?obs)\<lparr>stats := ?st\<rparr>"
    by (simp add: process_json_file_def Loaded m stats_all)
  moreover have "counted (stats self) (length ?obs) 0 1 ?st"
    by (simp add: counted_def add_counts_def)
  ultimately show ?thesis
    by (intro exI [of _ ?st])
       (simp add: json_file_observations_def Loaded loads_def loaded_entries_def)
qed

lemma archives_reconcile:
  "\<exists>st. fold (\<lambda>(now, archive) s. fst (process_archive utcoffset now s archive)) archives self =
          (reconcile_all self (concat (map (archive_observations utcoffset) archives)))
            \<lparr>stats := st\<rparr>
        \<and> counted (stats self)
            (length (concat (map (archive_observations utcoffset) archives)))
            (length (filter opens archives)) 0 st"
proof (induction archives arbitrary: self)
  case Nil
  have "self = self\<lparr>stats := stats self\<rparr>"
    by simp
  then show ?case
    by (intro exI [of _ "stats self"]) (simp add: reconcile_all_def counted_def)
next
  case (Cons x archives)
  obtain now filename contents where x: "x = (now, filename, contents)"
    by (cases x)
  let ?obs1 = "archive_observations utcoffset x"
  let ?obs2 = "concat (map (archive_observations utcoffset) archives)"
  let ?s1 = "fst (process_archive utcoffset now self (filename, contents))"
  from archive_reconcile [of utcoffset now self filename contents] obtain st1 where
    s1: "?s1 = (reconcile_all self ?obs1)\<lparr>stats := st1\<rparr>"
    and c1: "counted (stats self) (length ?obs1) (if opens x then 1 else 0) 0 st1"
    unfolding x by blast
  from Cons.IH [of ?s1] obtain st2 where
    s2: "fold (\<lambda>(now, archive) s. fst (process_archive utcoffset now s archive)) archives ?s1 =
           (reconcile_all ?s1 ?obs2)\<lparr>stats := st2\<rparr>"
    and c2: "counted (stats ?s1) (length ?obs2) (length (filter opens archives)) 0 st2"
    by blast
  from s1 have st: "stats ?s1 = st1"
    by simp
  have r: "(reconcile_all ?s1 ?obs2)\<lparr>stats := st2\<rparr> =
      (reconcile_all self (?obs1 @ ?obs2))\<lparr>stats := st2\<rparr>"
    unfolding s1 by (simp add: stats_frame_all reconcile_all_append)
  from counted_trans [OF c1 c2 [unfolded st]]
  have c: "counted (stats self) (length (?obs1 @ ?obs2))
      (length (filter opens (x # archives))) 0 st2"
    by (cases "opens x") simp_all
  from s2 r c show ?case
    by (intro exI [of _ st2]) (simp add: x)
qed

lemma json_files_reconcile:
  "\<exists>st. fold (\<lambda>(now, json_file) s. fst (process_json_file utcoffset now s json_file))
            json_files self =
          (reconcile_all self (concat (map (json_file_observations utcoffset) json_files)))
            \<lparr>stats := st\<rparr>
        \<and> counted (stats self)
            (length (concat (map (json_file_observations utcoffset) json_files)))
            0 (length (filter loads json_files)) st"
proof (induction json_files arbitrary: self)
  case Nil
  have "self = self\<lparr>stats := stats self\<rparr>"
    by simp
  then show ?case
    by (intro exI [of _ "stats self"]) (simp add: reconcile_all_def counted_def)
next
  case (Cons x json_files)
  obtain now filename loaded where x: "x = (now, filename, loaded)"
    by (cases x)
  let ?obs1 = "json_file_observations utcoffset x"
  let ?obs2 = "concat (map (json_file_observations utcoffset) json_files)"
  let ?s1 = "fst (process_json_file utcoffset now self (filename, loaded))"
  from json_file_reconcile [of utcoffset now self filename loaded] obtain st1 where
    s1: "?s1 = (reconcile_all self ?obs1)\<lparr>stats := st1\<rparr>"
    and c1: "counted (stats self) (length ?obs1) 0 (if loads x then 1 else 0) st1"
    unfolding x by blast
  from Cons.IH [of ?s1] obtain st2 where
    s2: "fold (\<lambda>(now, json_file) s. fst (process_json_file utcoffset now s json_file))
           json_files ?s1 =
           (reconcile_all ?s1 ?obs2)\<lparr>stats := st2\<rparr>"
    and c2: "counted (stats ?s1) (length ?obs2) 0 (length (filter loads json_files)) st2"
    by blast
  from s1 have st: "stats ?s1 = st1"
    by simp
  have r: "(reconcile_all ?s1 ?obs2)\<lparr>stats := st2\<rparr> =
      (reconcile_all self (?obs1 @ ?obs2))\<lparr>stats := st2\<rparr>"
    unfolding s1 by (simp add: stats_frame_all reconcile_all_append)
  from counted_trans [OF c1 c2 [unfolded st]]
  have c: "counted (stats self) (length (?obs1 @ ?obs2)) 0
      (length (filter loads (x # json_files))) st2"
    by (cases "loads x") simp_all
  from s2 r c show ?case
    by (intro exI [of _ st2]) (simp add: x)
qed

lemma run_reconciles:
  "\<exists>st. run utcoffset db archives json_files =
          (reconcile_all (new_extractor db) (run_observations utcoffset archives json_files))
            \<lparr>stats := st\<rparr>
        \<and> total_entries_processed st = length (run_observations utcoffset archives json_files)
        \<and> processed_archives st = length (filter opens archives)
        \<and> processed_json_files st = length (filter loads json_files)
        \<and> total_archives st = length archives
        \<and> total_json_files st = length json_files"
proof -
  let ?obsA = "concat (map (archive_observations utcoffset) archives)"
  let ?obsJ = "concat (map (json_file_observations utcoffset) json_files)"
  let ?s0 = "new_extractor db"
  let ?sA = "fold (\<lambda>(now, archive) s. fst (process_archive utcoffset now s archive)) archives ?s0"
  let ?sJ = "fold (\<lambda>(now, json_file) s. fst (process_json_file utcoffset now s json_file))
               json_files ?sA"
  from archives_reconcile [of utcoffset archives ?s0] obtain st1 where
    s1: "?sA = (reconcile_all ?s0 ?obsA)\<lparr>stats := st1\<rparr>"
    and c1: "counted (stats ?s0) (length ?obsA) (length (filter opens archives)) 0 st1"
    by blast
  from json_files_reconcile [of utcoffset json_files ?sA] obtain st2 where
    s2: "?sJ = (reconcile_all ?sA ?obsJ)\<lparr>stats := st2\<rparr>"
    and c2: "counted (stats ?sA) (length ?obsJ) 0 (length (filter loads json_files)) st2"
    by blast
  from s1 have st: "stats ?sA = st1"
    by simp
  have r: "(reconcile_all ?sA ?obsJ)\<lparr>stats := st2\<rparr> =
      (reconcile_all ?s0 (?obsA @ ?obsJ))\<lparr>stats := st2\<rparr>"
    unfolding s1 by (simp add: stats_frame_all reconcile_all_append)
  from counted_trans [OF c1 c2 [unfolded st]]
  have c: "counted empty_stats (length (?obsA @ ?obsJ)) (length (filter opens archives))
      (length (filter loads json_files)) st2"
    by (simp add: new_extractor_def)
  let ?st = "st2\<lparr>total_archives := length archives, total_json_files := length json_files\<rparr>"
  have "run utcoffset db archives json_files = set_totals (length archives) (length json_files) ?sJ"
    by (rule run_walk)
  also have "\<dots> = (reconcile_all ?s0 (?obsA @ ?obsJ))\<lparr>stats := ?st\<rparr>"
    unfolding s2 r by (simp add: set_totals_def)
  finally have "run utcoffset db archives json_files =
      (reconcile_all ?s0 (run_observations utcoffset archives json_files))\<lparr>stats := ?st\<rparr>"
    by (simp add: run_observations_def)
  moreover from c have "total_entries_processed ?st =
        length (run_observations utcoffset archives json_files)
      \<and> processed_archives ?st = length (filter opens archives)
      \<and> processed_json_files ?st = length (filter loads json_files)
      \<and> total_archives ?st = length archives
      \<and> total_json_files ?st = length json_files"
    by (simp add: counted_def empty_stats_def run_observations_def)
  ultimately show ?thesis
    by blast
qed

text \<open>
  C9. A run reconciles exactly the entries of the files that load, in the order of the
  run, each with the fallback timestamp of its archive or loose file: the table at the end
  is the one those observations give, the entry counter is their number, and the counters
  of processed archives and loose files are the numbers of archives that open and of
  loose files that load. A loose file with malformed JSON leaves the extractor as it was
  and counts \<open>(0, 0, 0)\<close>; so does an archive that fails to open. A malformed file inside
  an archive changes nothing: the archive gives what it gives without that file, and the
  entry count it returns is the number of entries of its files that load. So a run over
  inputs of which one is such a bad file or archive ends in the state of the run over the
  other inputs, all of which are processed, except that the total that counts the inputs
  found counts the bad one too.
\<close>

theorem bad_input_skipped:
  "games (run utcoffset db archives json_files) =
     games (reconcile_all (new_extractor db) (run_observations utcoffset archives json_files))
   \<and> processed_games (run utcoffset db archives json_files) =
     processed_games
       (reconcile_all (new_extractor db) (run_observations utcoffset archives json_files))
   \<and> total_entries_processed (stats (run utcoffset db archives json_files)) =
     length (run_observations utcoffset archives json_files)
   \<and> processed_archives (stats (run utcoffset db archives json_files)) =
     length (filter opens archives)
   \<and> processed_json_files (stats (run utcoffset db archives json_files)) =
     length (filter loads json_files)
   \<and> total_archives (stats (run utcoffset db archives json_files)) = length archives
   \<and> total_json_files (stats (run utcoffset db archives json_files)) = length json_files
   \<and> fst (snd (process_archive utcoffset now self (filename, Extracted members))) =
     length (concat (map loaded_entries members))
   \<and> process_json_file utcoffset now self (filename, JSONDecodeError) = (self, 0, 0, 0)
   \<and> process_archive utcoffset now self (filename, TarError) = (self, 0, 0, 0)
   \<and> process_archive utcoffset now self (filename, Extracted (fpre @ JSONDecodeError # fpost)) =
       process_archive utcoffset now self (filename, Extracted (fpre @ fpost))
   \<and> run utcoffset db archives (jpre @ (now, filename, JSONDecodeError) # jpost) =
       set_totals (length archives) (Suc (length jpre + length jpost))
         (run utcoffset db archives (jpre @ jpost))
   \<and> run utcoffset db (apre @ (now, filename, TarError) # apost) json_files =
       set_totals (Suc (length apre + length apost)) (length json_files)
         (run utcoffset db (apre @ apost) json_files)
   \<and> run utcoffset db (apre @ (now, filename, Extracted (fpre @ JSONDecodeError # fpost)) # apost)
         json_files =
       run utcoffset db (apre @ (now, filename, Extracted (fpre @ fpost)) # apost) json_files"
proof -
  from run_reconciles [of utcoffset db archives json_files] obtain st where
    r: "run utcoffset db archives json_files =
          (reconcile_all (new_extractor db) (run_observations utcoffset archives json_files))
            \<lparr>stats := st\<rparr>"
    and c: "total_entries_processed st = length (run_observations utcoffset archives json_files)"
      "processed_archives st = length (filter opens archives)"
      "processed_json_files st = length (filter loads json_files)"
      "total_archives st = length archives"
      "total_json_files st = length json_files"
    by blast
  have p1: "games (run utcoffset db archives json_files) =
     games (reconcile_all (new_extractor db) (run_observations utcoffset archives json_files))"
    and p2: "processed_games (run utcoffset db archives json_files) =
     processed_games
       (reconcile_all (new_extractor db) (run_observations utcoffset archives json_files))"
    and p3: "total_entries_processed (stats (run utcoffset db archives json_files)) =
     length (run_observations utcoffset archives json_files)"
    and p4: "processed_archives (stats (run utcoffset db archives json_files)) =
     length (filter opens archives)"
    and p5: "processed_json_files (stats (run utcoffset db archives json_files)) =
     length (filter loads json_files)"
    and p6: "total_archives (stats (run utcoffset db archives json_files)) = length archives"
    and p7: "total_json_files (stats (run utcoffset db archives json_files)) = length json_files"
    unfolding r using c by simp_all
  from members_reconcile [of self members "extract_timestamp ''.tar.gz'' utcoffset now filename"
      0 0 0]
  have p8: "fst (snd (process_archive utcoffset now self (filename, Extracted members))) =
     length (concat (map loaded_entries members))"
    by (auto simp: process_archive_def)
  have f: "process_json_file utcoffset now s (filename, JSONDecodeError) = (s, 0, 0, 0)" for s
    by (simp add: process_json_file_def)
  have t: "process_archive utcoffset now s (filename, TarError) = (s, 0, 0, 0)" for s
    by (simp add: process_archive_def)
  have m: "process_archive utcoffset now s (filename, Extracted (fpre @ JSONDecodeError # fpost)) =
       process_archive utcoffset now s (filename, Extracted (fpre @ fpost))" for s
    by (simp add: process_archive_def members_skip_bad)
  have q1: "run utcoffset db archives (jpre @ (now, filename, JSONDecodeError) # jpost) =
       set_totals (length archives) (Suc (length jpre + length jpost))
         (run utcoffset db archives (jpre @ jpost))"
    by (simp add: run_walk f set_totals_twice)
  have q2: "run utcoffset db (apre @ (now, filename, TarError) # apost) json_files =
       set_totals (Suc (length apre + length apost)) (length json_files)
         (run utcoffset db (apre @ apost) json_files)"
    by (simp add: run_walk t set_totals_twice)
  have q3: "run utcoffset db
         (apre @ (now, filename, Extracted (fpre @ JSONDecodeError # fpost)) # apost) json_files =
       run utcoffset db (apre @ (now, filename, Extracted (fpre @ fpost)) # apost) json_files"
    by (simp add: run_walk m)
  from p1 p2 p3 p4 p5 p6 p7 p8 f [of self] t [of self] m [of self] q1 q2 q3 show ?thesis
    by (intro conjI)
qed

theorem bad_input_skipped_witness:
  "games (run (\<lambda>_. 0) []
       [(1700000000, ''reports_jan_2020.tar.gz'',
           Extracted [Loaded (DataSingle (Entry (Some ''123'') (Some ''Foo'') None)),
                      JSONDecodeError,
                      Loaded (DataList [Entry (Some ''9'') (Some ''Bar'') None,
                                        Entry (Some ''123'') (Some ''Foo II'')
                                          (Some (Some 1500000000))])]),
        (1700000001, ''reports_feb_2020.tar.gz'', TarError)]
       [(1700000002, ''reports_bad.json'', JSONDecodeError),
        (1700000003, ''reports_mar_2020.json'',
           Loaded (DataSingle (Entry (Some ''9'') (Some ''Bar'') None)))])
   = [(''123'', \<lparr>title = ''Foo'', first_seen = Some 1500000000,
                 last_seen = Some 1579046400, report_count = 2\<rparr>),
      (''9'', \<lparr>title = ''Bar'', first_seen = Some 1579046400,
               last_seen = Some 1584230400, report_count = 2\<rparr>)]
   \<and> stats (run (\<lambda>_. 0) []
       [(1700000000, ''reports_jan_2020.tar.gz'',
           Extracted [Loaded (DataSingle (Entry (Some ''123'') (Some ''Foo'') None)),
                      JSONDecodeError,
                      Loaded (DataList [Entry (Some ''9'') (Some ''Bar'') None,
                                        Entry (Some ''123'') (Some ''Foo II'')
                                          (Some (Some 1500000000))])]),
        (1700000001, ''reports_feb_2020.tar.gz'', TarError)]
       [(1700000002, ''reports_bad.json'', JSONDecodeError),
        (1700000003, ''reports_mar_2020.json'',
           Loaded (DataSingle (Entry (Some ''9'') (Some ''Bar'') None)))])
   = \<lparr>total_archives = 2, total_json_files = 2, total_entries_processed = 4,
       total_games_added = 2, total_games_updated = 2, processed_archives = 1,
       processed_json_files = 1\<rparr>"
proof -
  define archives :: "(int \<times> string \<times> tar) list" where "archives =
       [(1700000000, ''reports_jan_2020.tar.gz'',
           Extracted [Loaded (DataSingle (Entry (Some ''123'') (Some ''Foo'') None)),
                      JSONDecodeError,
                      Loaded (DataList [Entry (Some ''9'') (Some ''Bar'') None,
                                        Entry (Some ''123'') (Some ''Foo II'')
                                          (Some (Some 1500000000))])]),
        (1700000001, ''reports_feb_2020.tar.gz'', TarError)]"
  define json_files :: "(int \<times> string \<times> load_result) list" where "json_files =
       [(1700000002, ''reports_bad.json'', JSONDecodeError),
        (1700000003, ''reports_mar_2020.json'',
           Loaded (DataSingle (Entry (Some ''9'') (Some ''Bar'') None)))]"
  have t: "extract_timestamp ''.tar.gz'' (\<lambda>_. 0) 1700000000 ''reports_jan_2020.tar.gz''
             = Some 1579046400"
    "extract_timestamp ''.json'' (\<lambda>_. 0) 1700000003 ''reports_mar_2020.json'' = Some 1584230400"
    by (simp_all add: extract_timestamp_def re_match_def is_lower_def is_digit_def month_map_def
        py_int_def datetime_def days_in_month_def dt_timestamp_def ymd2ord_def
        days_before_year_def days_before_month_def is_leap_def)
  have obs: "run_observations (\<lambda>_. 0) archives json_files =
      [(Entry (Some ''123'') (Some ''Foo'') None, Some 1579046400),
       (Entry (Some ''9'') (Some ''Bar'') None, Some 1579046400),
       (Entry (Some ''123'') (Some ''Foo II'') (Some (Some 1500000000)), Some 1579046400),
       (Entry (Some ''9'') (Some ''Bar'') None, Some 1584230400)]"
    by (simp add: run_observations_def archive_observations_def json_file_observations_def
        loaded_entries_def entries_of_def archives_def json_files_def t)
  have rec: "games (reconcile_all (new_extractor [])
      [(Entry (Some ''123'') (Some ''Foo'') None, Some 1579046400),
       (Entry (Some ''9'') (Some ''Bar'') None, Some 1579046400),
       (Entry (Some ''123'') (Some ''Foo II'') (Some (Some 1500000000)), Some 1579046400),
       (Entry (Some ''9'') (Some ''Bar'') None, Some 1584230400)])
     = [(''123'', \<lparr>title = ''Foo'', first_seen = Some 1500000000,
                 last_seen = Some 1579046400, report_count = 2\<rparr>),
        (''9'', \<lparr>title = ''Bar'', first_seen = Some 1579046400,
               last_seen = Some 1584230400, report_count = 2\<rparr>)]"
    by (simp add: reconcile_all_def new_extractor_def process_json_entry_def older_than_def
        newer_than_def bindable_def sqlite_int_def Let_def)
  have cnt: "length (filter opens archives) = 1" "length (filter loads json_files) = 1"
    "length archives = 2" "length json_files = 2"
    by (simp_all add: archives_def json_files_def opens_def loads_def)
  have au: "total_games_added (stats (run (\<lambda>_. 0) [] archives json_files)) = 2"
    "total_games_updated (stats (run (\<lambda>_. 0) [] archives json_files)) = 2"
    by (simp_all add: run_def archives_def json_files_def new_extractor_def empty_stats_def
        process_archive_def process_json_file_def process_data_def process_json_entry_def
        older_than_def newer_than_def bindable_def sqlite_int_def add_counts_def Let_def t)
  from bad_input_skipped [where utcoffset = "\<lambda>_. 0" and db = "[]" and archives = archives
      and json_files = json_files and now = 0 and self = "new_extractor []" and filename = "[]"
      and members = "[]" and fpre = "[]" and fpost = "[]" and jpre = "[]" and jpost = "[]"
      and apre = "[]" and apost = "[]"]
  have g: "games (run (\<lambda>_. 0) [] archives json_files) =
      games (reconcile_all (new_extractor []) (run_observations (\<lambda>_. 0) archives json_files))"
    and c: "total_entries_processed (stats (run (\<lambda>_. 0) [] archives json_files)) =
      length (run_observations (\<lambda>_. 0) archives json_files)"
      "processed_archives (stats (run (\<lambda>_. 0) [] archives json_files)) =
       length (filter opens archives)"
      "processed_json_files (stats (run (\<lambda>_. 0) [] archives json_files)) =
       length (filter loads json_files)"
      "total_archives (stats (run (\<lambda>_. 0) [] archives json_files)) = length archives"
      "total_json_files (stats (run (\<lambda>_. 0) [] archives json_files)) = length json_files"
    by blast+
  from g have g': "games (run (\<lambda>_. 0) [] archives json_files) =
      [(''123'', \<lparr>title = ''Foo'', first_seen = Some 1500000000,
                 last_seen = Some 1579046400, report_count = 2\<rparr>),
        (''9'', \<lparr>title = ''Bar'', first_seen = Some 1579046400,
               last_seen = Some 1584230400, report_count = 2\<rparr>)]"
    unfolding obs rec .
  from c au have s': "stats (run (\<lambda>_. 0) [] archives json_files) =
      \<lparr>total_archives = 2, total_json_files = 2, total_entries_processed = 4,
       total_games_added = 2, total_games_updated = 2, processed_archives = 1,
       processed_json_files = 1\<rparr>"
    unfolding obs cnt by (cases "stats (run (\<lambda>_. 0) [] archives json_files)") simp
  from g' s' show ?thesis
    unfolding archives_def json_files_def by blast
qed

end
